theory Spec2Isabelle
  imports Complex_Main "HOL-Library.Log_Nat"
begin

section \<open>Data model of \<^verbatim>\<open>ttcli/option.py\<close>\<close>

text \<open>
  A finite Python \<^verbatim>\<open>Decimal\<close> (a price, a delta, a strike) is modelled by its
  numeric value, a rational. The pricing blocks compute with the prices of the feed in
  the default \<^verbatim>\<open>decimal\<close> context, which rounds the result of every operation
  to 28 significant digits; that rounding is modelled (section on decimal arithmetic).
  The deviation of a delta and the strike of a spread (\<^verbatim>\<open>delta * 100 - target\<close>,
  \<^verbatim>\<open>strike + width\<close>) are written with exact arithmetic, which is what the
  context computes as long as these values have at most 28 significant digits.
  Python's \<^verbatim>\<open>int\<close> is \<open>int\<close>.

  Streamer events carry an \<^verbatim>\<open>eventSymbol\<close>; a \<^verbatim>\<open>Quote\<close> adds
  \<^verbatim>\<open>bidPrice\<close> and \<^verbatim>\<open>askPrice\<close>, a \<^verbatim>\<open>Greeks\<close> event adds
  \<^verbatim>\<open>delta\<close>.
\<close>

record event =
  eventSymbol :: string

record quote = event +
  bidPrice :: rat
  askPrice :: rat

record greeks = event +
  delta :: rat

text \<open>One strike of \<^verbatim>\<open>subchain.strikes\<close>, with the fields the commands read.\<close>

record strike =
  strike_price :: rat
  call :: string
  put :: string
  call_streamer_symbol :: string
  put_streamer_symbol :: string

text \<open>
  The tradable contract objects (\<^verbatim>\<open>tastytrade.instruments.Option\<close>) that the
  contract resolver returns; the commands read their \<^verbatim>\<open>strike_price\<close> (here
  \<open>option_strike\<close>, the name \<open>strike_price\<close> being taken by the strike record)
  and call \<^verbatim>\<open>build_leg\<close> on them.
\<close>

record instrument =
  symbol :: string
  option_strike :: rat

datatype order_action = BUY_TO_OPEN | BUY_TO_CLOSE | SELL_TO_OPEN | SELL_TO_CLOSE

datatype order_time_in_force = DAY | GTC | GTD | IOC

datatype order_type_t = LIMIT | MARKET | STOP | STOP_LIMIT

datatype price_effect_t = CREDIT | DEBIT

record leg =
  leg_symbol :: string
  quantity :: int
  action :: order_action

record new_order =
  time_in_force :: order_time_in_force
  order_type :: order_type_t
  legs :: "leg list"
  price :: rat
  price_effect :: price_effect_t

text \<open>
  The exceptions that the modelled lines can raise. \<open>Blocked\<close> is not an exception: it
  stands for an \<^verbatim>\<open>await\<close> on the feed that never completes because the feed
  delivers no further event. \<open>NoMatchError\<close> is the error the specification names for
  a selection over no readings; no line of the source raises it.
  \<open>StopIteration\<close> is what \<^verbatim>\<open>next\<close> raises on a generator without an
  element (it leaves the coroutine as a \<^verbatim>\<open>RuntimeError\<close>); \<open>Overflow\<close> and
  \<open>InvalidOperation\<close> are the trapped signals of the \<^verbatim>\<open>decimal\<close> context.
\<close>

datatype error =
    ValueError | AttributeError | UnboundLocalError | StopIteration | KeyError
  | IndexError | InvalidOperation | Overflow | EOFError | Blocked | NoMatchError

section \<open>Dictionaries in insertion order\<close>

text \<open>
  A Python \<^verbatim>\<open>dict\<close> iterates in the order in which its keys were first
  inserted, and assigning to a key that is present replaces the value in place. The
  commands iterate over \<^verbatim>\<open>values()\<close>, so the order is kept: a dictionary is
  an association list with distinct keys, \<^verbatim>\<open>d[k] = v\<close> is \<open>dict_set\<close>,
  \<^verbatim>\<open>len(d)\<close> is \<open>length\<close>, \<^verbatim>\<open>d[k]\<close> is \<open>map_of d k\<close> (with
  \<open>None\<close> for the \<^verbatim>\<open>KeyError\<close>) and \<^verbatim>\<open>d.values()\<close> is
  \<open>map snd d\<close>.
\<close>

type_synonym 'v dict = "(string \<times> 'v) list"

fun dict_set :: "string \<Rightarrow> 'v \<Rightarrow> 'v dict \<Rightarrow> 'v dict" where
  "dict_set k v [] = [(k, v)]"
| "dict_set k v ((k', v') # d) =
     (if k' = k then (k, v) # d else (k', v') # dict_set k v d)"

section \<open>The aggregation loops\<close>

text \<open>
  \<^verbatim>\<open>
  async def listen_quotes(n_quotes, streamer, skip=None):
      quote_dict = {}
      async for quote in streamer.listen(EventType.QUOTE):
          if quote.eventSymbol != skip:
              quote_dict[quote.eventSymbol] = quote
          if len(quote_dict) == n_quotes:
              return quote_dict
  \<close>
  The feed is the list of events in arrival order. The result \<open>None\<close> says that the
  loop has not returned when the listed events are used up (the live feed never ends: the
  loop is then still waiting).
\<close>

fun listen_quotes_from ::
  "quote dict \<Rightarrow> int \<Rightarrow> quote list \<Rightarrow> string option \<Rightarrow> quote dict option" where
  "listen_quotes_from quote_dict n_quotes [] skip = None"
| "listen_quotes_from quote_dict n_quotes (q # stream) skip =
     (let quote_dict' =
            (if Some (eventSymbol q) \<noteq> skip
             then dict_set (eventSymbol q) q quote_dict else quote_dict)
      in if int (length quote_dict') = n_quotes then Some quote_dict'
         else listen_quotes_from quote_dict' n_quotes stream skip)"

definition listen_quotes :: "int \<Rightarrow> quote list \<Rightarrow> string option \<Rightarrow> quote dict option" where
  "listen_quotes n_quotes stream skip = listen_quotes_from [] n_quotes stream skip"

text \<open>
  \<^verbatim>\<open>
  async def listen_greeks(n_greeks, streamer):
      greeks_dict = {}
      async for greeks in streamer.listen(EventType.GREEKS):
          greeks_dict[greeks.eventSymbol] = greeks
          if len(greeks_dict) == n_greeks:
              return greeks_dict
  \<close>
\<close>

fun listen_greeks_from :: "greeks dict \<Rightarrow> int \<Rightarrow> greeks list \<Rightarrow> greeks dict option" where
  "listen_greeks_from greeks_dict n_greeks [] = None"
| "listen_greeks_from greeks_dict n_greeks (g # stream) =
     (let greeks_dict' = dict_set (eventSymbol g) g greeks_dict
      in if int (length greeks_dict') = n_greeks then Some greeks_dict'
         else listen_greeks_from greeks_dict' n_greeks stream)"

definition listen_greeks :: "int \<Rightarrow> greeks list \<Rightarrow> greeks dict option" where
  "listen_greeks n_greeks stream = listen_greeks_from [] n_greeks stream"

text \<open>
  Two notions used to state what the loops return. \<open>stored skip d evs\<close> is the
  dictionary after the events \<open>evs\<close> have been consumed, starting from \<open>d\<close>;
  \<open>last_event skip s evs\<close> is the most recent event of \<open>evs\<close> for the symbol \<open>s\<close>
  (none when \<open>s\<close> is the skipped symbol).
\<close>

definition stored :: "string option \<Rightarrow> ('a event_scheme) dict \<Rightarrow> 'a event_scheme list \<Rightarrow> 'a event_scheme dict" where
  "stored skip d evs =
     fold (\<lambda>e acc. if Some (eventSymbol e) \<noteq> skip then dict_set (eventSymbol e) e acc else acc) evs d"

definition last_event :: "string option \<Rightarrow> string \<Rightarrow> 'a event_scheme list \<Rightarrow> 'a event_scheme option" where
  "last_event skip s evs =
     (if Some s = skip then None else find (\<lambda>e. eventSymbol e = s) (rev evs))"

section \<open>Parameter checks at the head of the commands\<close>

text \<open>
  Each command starts with an \<^verbatim>\<open>if/elif\<close> chain that prints an error and returns.
  \<open>Rejected msg\<close> is \<^verbatim>\<open>print_error(msg); return\<close>: nothing after the chain
  runs, so no session, chain or streamer is created. \<open>Proceeds\<close> says that control
  falls through to \<^verbatim>\<open>sesh = RenewableSession()\<close>, from where the command fetches
  the chain, asks for the expiration and opens the \<^verbatim>\<open>DXLinkStreamer\<close>.

  \<^verbatim>\<open>x is not None\<close> is \<open>given x\<close>; \<^verbatim>\<open>not x\<close> on an optional number
  holds for \<^verbatim>\<open>None\<close> and for zero.
\<close>

datatype outcome = Rejected string | Proceeds

definition given :: "'a option \<Rightarrow> bool" where
  "given x = (x \<noteq> None)"

definition falsy :: "'a::zero option \<Rightarrow> bool" where
  "falsy x = (case x of None \<Rightarrow> True | Some v \<Rightarrow> v = 0)"

text \<open>\<^verbatim>\<open>delta is not None and abs(delta) > 99\<close>\<close>

definition delta_too_high :: "int option \<Rightarrow> bool" where
  "delta_too_high d = (case d of None \<Rightarrow> False | Some v \<Rightarrow> \<bar>v\<bar> > 99)"

text \<open>
  \<^verbatim>\<open>
  if strike is not None and delta is not None:
      print_error('Must specify either delta or strike, but not both.'); return
  elif not strike and not delta:
      print_error('Please specify either delta or strike for the option.'); return
  elif delta is not None and abs(delta) > 99:
      print_error('Delta value is too high, -99 <= delta <= 99'); return
  \<close>
  The chain is the same, character for character, in \<^verbatim>\<open>call\<close> and \<^verbatim>\<open>put\<close>.
\<close>

definition call_check :: "rat option \<Rightarrow> int option \<Rightarrow> outcome" where
  "call_check strike_opt delta_opt =
     (if given strike_opt \<and> given delta_opt
      then Rejected ''Must specify either delta or strike, but not both.''
      else if falsy strike_opt \<and> falsy delta_opt
      then Rejected ''Please specify either delta or strike for the option.''
      else if delta_too_high delta_opt
      then Rejected ''Delta value is too high, -99 <= delta <= 99''
      else Proceeds)"

definition put_check :: "rat option \<Rightarrow> int option \<Rightarrow> outcome" where
  "put_check strike_opt delta_opt =
     (if given strike_opt \<and> given delta_opt
      then Rejected ''Must specify either delta or strike, but not both.''
      else if falsy strike_opt \<and> falsy delta_opt
      then Rejected ''Please specify either delta or strike for the option.''
      else if delta_too_high delta_opt
      then Rejected ''Delta value is too high, -99 <= delta <= 99''
      else Proceeds)"

text \<open>
  \<^verbatim>\<open>
  if (call is not None or put is not None) and delta is not None:
      print_error('Must specify either delta or strike, but not both.'); return
  elif delta is not None and (call is not None or put is not None):
      print_error('Please specify either delta, or strikes for both options.'); return
  elif delta is not None and abs(delta) > 99:
      print_error('Delta value is too high, -99 <= delta <= 99'); return
  \<close>
\<close>

definition strangle_check :: "rat option \<Rightarrow> rat option \<Rightarrow> int option \<Rightarrow> outcome" where
  "strangle_check call_opt put_opt delta_opt =
     (if (given call_opt \<or> given put_opt) \<and> given delta_opt
      then Rejected ''Must specify either delta or strike, but not both.''
      else if given delta_opt \<and> (given call_opt \<or> given put_opt)
      then Rejected ''Please specify either delta, or strikes for both options.''
      else if delta_too_high delta_opt
      then Rejected ''Delta value is too high, -99 <= delta <= 99''
      else Proceeds)"

section \<open>Selection of the strike by delta\<close>

text \<open>
  \<^verbatim>\<open>
  lowest = 100
  selected = None
  for g in greeks:
      diff = abs(g.delta * Decimal(100) - delta)      # "+ delta" in put
      if diff < lowest:
          selected = g
          lowest = diff
  \<close>
  The loop state is the pair \<^verbatim>\<open>(lowest, selected)\<close>; the target is named
  \<open>target\<close> because \<open>delta\<close> is the field of the event.
\<close>

fun call_select_from :: "rat \<Rightarrow> greeks option \<Rightarrow> greeks list \<Rightarrow> int \<Rightarrow> greeks option" where
  "call_select_from lowest selected [] target = selected"
| "call_select_from lowest selected (g # gs) target =
     (let diff = \<bar>delta g * 100 - of_int target\<bar>
      in if diff < lowest then call_select_from diff (Some g) gs target
         else call_select_from lowest selected gs target)"

definition call_select :: "greeks list \<Rightarrow> int \<Rightarrow> greeks option" where
  "call_select gs target = call_select_from 100 None gs target"

fun put_select_from :: "rat \<Rightarrow> greeks option \<Rightarrow> greeks list \<Rightarrow> int \<Rightarrow> greeks option" where
  "put_select_from lowest selected [] target = selected"
| "put_select_from lowest selected (g # gs) target =
     (let diff = \<bar>delta g * 100 + of_int target\<bar>
      in if diff < lowest then put_select_from diff (Some g) gs target
         else put_select_from lowest selected gs target)"

definition put_select :: "greeks list \<Rightarrow> int \<Rightarrow> greeks option" where
  "put_select gs target = put_select_from 100 None gs target"

text \<open>
  The two loops differ in the deviation only. \<open>select_from\<close> is their common shape
  with the deviation as a parameter; the facts about both loops are proved on it.
\<close>

fun select_from :: "('a \<Rightarrow> rat) \<Rightarrow> rat \<Rightarrow> 'a option \<Rightarrow> 'a list \<Rightarrow> 'a option" where
  "select_from dev lowest selected [] = selected"
| "select_from dev lowest selected (g # gs) =
     (if dev g < lowest then select_from dev (dev g) (Some g) gs
      else select_from dev lowest selected gs)"

text \<open>
  \<^verbatim>\<open>
  greeks = list(greeks_dict.values())
  ... the loop above ...
  strike = next(s.strike_price for s in subchain.strikes
                if s.call_streamer_symbol == selected.eventSymbol)
  \<close>
  The generator evaluates its condition once per strike, so \<^verbatim>\<open>selected.eventSymbol\<close>
  is read only when there is a strike: with no strikes \<^verbatim>\<open>next\<close> raises
  \<^verbatim>\<open>StopIteration\<close> at once; with a strike and \<^verbatim>\<open>selected\<close> still
  \<^verbatim>\<open>None\<close> the attribute access at the first strike raises
  \<^verbatim>\<open>AttributeError\<close>; with a selection and no strike of its symbol
  \<^verbatim>\<open>next\<close> raises \<^verbatim>\<open>StopIteration\<close>. The result is the new state
  \<^verbatim>\<open>(selected, strike)\<close>.
\<close>

definition call_strike_by_delta ::
  "strike list \<Rightarrow> greeks dict \<Rightarrow> int \<Rightarrow> error + (greeks \<times> rat)" where
  "call_strike_by_delta strikes greeks_dict target =
     (let selected = call_select (map snd greeks_dict) target
      in case strikes of
           [] \<Rightarrow> Inl StopIteration
         | _ # _ \<Rightarrow>
             (case selected of
                None \<Rightarrow> Inl AttributeError
              | Some sel \<Rightarrow>
                  (case find (\<lambda>s. call_streamer_symbol s = eventSymbol sel) strikes of
                     None \<Rightarrow> Inl StopIteration
                   | Some s \<Rightarrow> Inr (sel, strike_price s))))"


section \<open>Decimal arithmetic in the default context\<close>

text \<open>
  The default context of the \<^verbatim>\<open>decimal\<close> module has precision 28, rounding
  \<^verbatim>\<open>ROUND_HALF_EVEN\<close>, \<^verbatim>\<open>Emax = 999999\<close>, \<^verbatim>\<open>Emin = -999999\<close>
  and traps \<^verbatim>\<open>Overflow\<close>, \<^verbatim>\<open>InvalidOperation\<close> and
  \<^verbatim>\<open>DivisionByZero\<close>. An operation computes the exact result and then fits it to
  the context: a result with more than 28 significant digits is rounded half to even at
  its 28th digit (at the exponent \<^verbatim>\<open>Etiny = Emin - 27\<close> for a subnormal result),
  and a result whose leading digit then lies above \<^verbatim>\<open>Emax\<close> raises
  \<^verbatim>\<open>Overflow\<close>. The model covers finite values (no NaN, no infinity).

  \<open>round_half_even x\<close> is the integer nearest to \<open>x\<close>, the even one of the two when
  \<open>x\<close> lies half way; \<open>pow10 e\<close> is ten to the power \<open>e\<close>; \<open>adjusted x\<close> is the
  exponent of the leading digit of a non-zero \<open>x\<close> (\<^verbatim>\<open>Decimal.adjusted()\<close>).
\<close>

definition round_half_even :: "rat \<Rightarrow> int" where
  "round_half_even x =
     (let f = \<lfloor>x\<rfloor>; r = x - of_int f
      in if r < 1 / 2 then f else if 1 / 2 < r then f + 1
         else if even f then f else f + 1)"

definition pow10 :: "int \<Rightarrow> rat" where
  "pow10 e = (if 0 \<le> e then 10 ^ nat e else 1 / 10 ^ nat (- e))"

definition adjusted :: "rat \<Rightarrow> int" where
  "adjusted x =
     (let a = \<bar>x\<bar>
      in if 1 \<le> a then int (floorlog 10 (nat \<lfloor>a\<rfloor>)) - 1
         else (let d = floorlog 10 (nat \<lfloor>1 / a\<rfloor>)
               in if 1 \<le> a * 10 ^ (d - 1) then 1 - int d else - int d))"

definition prec :: int where
  "prec = 28"

definition Emax :: int where
  "Emax = 999999"

definition Etiny :: int where
  "Etiny = - 999999 - (prec - 1)"

text \<open>Fitting an exact result to the context (\<^verbatim>\<open>Decimal._fix\<close>).\<close>

definition dec_fix :: "rat \<Rightarrow> error + rat" where
  "dec_fix x =
     (if x = 0 then Inr 0
      else let q = max (adjusted x - (prec - 1)) Etiny;
               r = of_int (round_half_even (x / pow10 q)) * pow10 q
           in if r \<noteq> 0 \<and> Emax < adjusted r then Inl Overflow else Inr r)"

text \<open>\<^verbatim>\<open>a + b\<close> and \<^verbatim>\<open>a - b\<close> on decimals.\<close>

definition dec_add :: "rat \<Rightarrow> rat \<Rightarrow> error + rat" where
  "dec_add a b = dec_fix (a + b)"

definition dec_sub :: "rat \<Rightarrow> rat \<Rightarrow> error + rat" where
  "dec_sub a b = dec_fix (a - b)"

text \<open>\<^verbatim>\<open>mid = (bid + ask) / Decimal(2)\<close>: an addition, then a division by two.\<close>

definition mid_price :: "rat \<Rightarrow> rat \<Rightarrow> error + rat" where
  "mid_price bid ask =
     (case dec_add bid ask of
        Inl e \<Rightarrow> Inl e
      | Inr s \<Rightarrow> dec_fix (s / 2))"

text \<open>
  \<^verbatim>\<open>sum(xs)\<close> starts from the integer 0 and adds the elements from the left, each
  addition in the context.
\<close>

fun dec_sum_from :: "rat \<Rightarrow> rat list \<Rightarrow> error + rat" where
  "dec_sum_from acc [] = Inr acc"
| "dec_sum_from acc (x # xs) =
     (case dec_add acc x of
        Inl e \<Rightarrow> Inl e
      | Inr s \<Rightarrow> dec_sum_from s xs)"

definition dec_sum :: "rat list \<Rightarrow> error + rat" where
  "dec_sum xs = dec_sum_from 0 xs"

text \<open>
  Three notions used to state what the context computes. \<open>nearest_even unit x r\<close>: \<open>r\<close>
  is a multiple of \<open>unit\<close> nearest to \<open>x\<close>, the even multiple when \<open>x\<close> lies half way
  between two. \<open>rounded28 x r\<close>: \<open>r\<close> is \<open>x\<close> rounded half to even at its 28th
  significant digit (not below \<open>Etiny\<close>). \<open>fits28 x\<close>: \<open>x\<close> is a decimal of at most 28
  significant digits (with an exponent not below \<open>Etiny\<close>).
\<close>

definition nearest_even :: "rat \<Rightarrow> rat \<Rightarrow> rat \<Rightarrow> bool" where
  "nearest_even unit x r =
     (\<exists>k. r = of_int k * unit \<and> \<bar>r - x\<bar> * 2 \<le> unit \<and> (\<bar>r - x\<bar> * 2 = unit \<longrightarrow> even k))"

definition rounded28 :: "rat \<Rightarrow> rat \<Rightarrow> bool" where
  "rounded28 x r =
     (if x = 0 then r = 0
      else \<exists>q. pow10 (q + 27) \<le> \<bar>x\<bar> \<and> \<bar>x\<bar> < pow10 (q + 28)
             \<and> nearest_even (pow10 (max q Etiny)) x r)"

definition fits28 :: "rat \<Rightarrow> bool" where
  "fits28 x = (\<exists>c e. x = of_int c * pow10 e \<and> \<bar>c\<bar> < 10 ^ 28 \<and> Etiny \<le> e)"

section \<open>Pricing the combination\<close>

text \<open>
  The result of a pricing block is the triple \<^verbatim>\<open>(bid, ask, mid)\<close>. A missing key
  of \<^verbatim>\<open>quote_dict\<close> raises \<^verbatim>\<open>KeyError\<close>. The variable
  \<^verbatim>\<open>selected\<close> is assigned only on the delta path: \<open>None\<close> stands for the
  unbound local of the strike path, where \<^verbatim>\<open>selected.eventSymbol\<close> raises
  \<^verbatim>\<open>UnboundLocalError\<close>.

  \<^verbatim>\<open>
  await streamer.subscribe(EventType.QUOTE, [selected.eventSymbol])
  quote = await streamer.get_event(EventType.QUOTE)
  bid = quote.bidPrice
  ask = quote.askPrice
  mid = (bid + ask) / Decimal(2)
  \<close>
  These lines are the same in \<^verbatim>\<open>call\<close> and \<^verbatim>\<open>put\<close>.
\<close>

definition single_quote :: "greeks option \<Rightarrow> quote list \<Rightarrow> error + (rat \<times> rat \<times> rat)" where
  "single_quote selected feed =
     (case selected of
        None \<Rightarrow> Inl UnboundLocalError
      | Some sel \<Rightarrow>
          (case feed of
             [] \<Rightarrow> Inl Blocked
           | q # _ \<Rightarrow>
               (let bid = bidPrice q; ask = askPrice q
                in case mid_price bid ask of
                     Inl e \<Rightarrow> Inl e
                   | Inr mid \<Rightarrow> Inr (bid, ask, mid))))"

text \<open>
  \<^verbatim>\<open>
  spread_strike = next(s for s in subchain.strikes if s.strike_price == strike + width)
  await streamer.subscribe(EventType.QUOTE,
                           [selected.eventSymbol, spread_strike.call_streamer_symbol])
  quote_dict = await listen_quotes(2, streamer)
  bid = quote_dict[selected.eventSymbol].bidPrice
        - quote_dict[spread_strike.call_streamer_symbol].askPrice
  ask = quote_dict[selected.eventSymbol].askPrice
        - quote_dict[spread_strike.call_streamer_symbol].bidPrice
  mid = (bid + ask) / Decimal(2)
  \<close>
\<close>

definition call_spread_quote ::
  "int \<Rightarrow> strike list \<Rightarrow> rat \<Rightarrow> greeks option \<Rightarrow> quote list \<Rightarrow> error + (rat \<times> rat \<times> rat)" where
  "call_spread_quote width strikes strk selected feed =
     (case find (\<lambda>s. strike_price s = strk + of_int width) strikes of
        None \<Rightarrow> Inl StopIteration
      | Some spread_strike \<Rightarrow>
     (case selected of
        None \<Rightarrow> Inl UnboundLocalError
      | Some sel \<Rightarrow>
     (case listen_quotes 2 feed None of
        None \<Rightarrow> Inl Blocked
      | Some quote_dict \<Rightarrow>
     (case map_of quote_dict (eventSymbol sel) of
        None \<Rightarrow> Inl KeyError
      | Some q_sel \<Rightarrow>
     (case map_of quote_dict (call_streamer_symbol spread_strike) of
        None \<Rightarrow> Inl KeyError
      | Some q_spread \<Rightarrow>
     (case dec_sub (bidPrice q_sel) (askPrice q_spread) of
        Inl e \<Rightarrow> Inl e
      | Inr bid \<Rightarrow>
     (case dec_sub (askPrice q_sel) (bidPrice q_spread) of
        Inl e \<Rightarrow> Inl e
      | Inr ask \<Rightarrow>
     (case mid_price bid ask of
        Inl e \<Rightarrow> Inl e
      | Inr mid \<Rightarrow> Inr (bid, ask, mid)))))))))"

text \<open>The put command reads \<^verbatim>\<open>strike - width\<close> and the put streamer symbol.\<close>

definition put_spread_quote ::
  "int \<Rightarrow> strike list \<Rightarrow> rat \<Rightarrow> greeks option \<Rightarrow> quote list \<Rightarrow> error + (rat \<times> rat \<times> rat)" where
  "put_spread_quote width strikes strk selected feed =
     (case find (\<lambda>s. strike_price s = strk - of_int width) strikes of
        None \<Rightarrow> Inl StopIteration
      | Some spread_strike \<Rightarrow>
     (case selected of
        None \<Rightarrow> Inl UnboundLocalError
      | Some sel \<Rightarrow>
     (case listen_quotes 2 feed None of
        None \<Rightarrow> Inl Blocked
      | Some quote_dict \<Rightarrow>
     (case map_of quote_dict (eventSymbol sel) of
        None \<Rightarrow> Inl KeyError
      | Some q_sel \<Rightarrow>
     (case map_of quote_dict (put_streamer_symbol spread_strike) of
        None \<Rightarrow> Inl KeyError
      | Some q_spread \<Rightarrow>
     (case dec_sub (bidPrice q_sel) (askPrice q_spread) of
        Inl e \<Rightarrow> Inl e
      | Inr bid \<Rightarrow>
     (case dec_sub (askPrice q_sel) (bidPrice q_spread) of
        Inl e \<Rightarrow> Inl e
      | Inr ask \<Rightarrow>
     (case mid_price bid ask of
        Inl e \<Rightarrow> Inl e
      | Inr mid \<Rightarrow> Inr (bid, ask, mid)))))))))"

text \<open>\<^verbatim>\<open>if width: ... else: ...\<close>, where \<^verbatim>\<open>width\<close> is an optional integer.\<close>

definition call_quote ::
  "int option \<Rightarrow> strike list \<Rightarrow> rat \<Rightarrow> greeks option \<Rightarrow> quote list \<Rightarrow> error + (rat \<times> rat \<times> rat)" where
  "call_quote width strikes strk selected feed =
     (case width of
        None \<Rightarrow> single_quote selected feed
      | Some w \<Rightarrow>
          if w \<noteq> 0 then call_spread_quote w strikes strk selected feed
          else single_quote selected feed)"

definition put_quote ::
  "int option \<Rightarrow> strike list \<Rightarrow> rat \<Rightarrow> greeks option \<Rightarrow> quote list \<Rightarrow> error + (rat \<times> rat \<times> rat)" where
  "put_quote width strikes strk selected feed =
     (case width of
        None \<Rightarrow> single_quote selected feed
      | Some w \<Rightarrow>
          if w \<noteq> 0 then put_spread_quote w strikes strk selected feed
          else single_quote selected feed)"

text \<open>
  The strangle: with a width the four quotes are combined by name, without a width the
  bids and the asks of all values of \<^verbatim>\<open>quote_dict\<close> are summed.
  \<^verbatim>\<open>
  quote_dict = await listen_quotes(2, streamer)
  bid = sum([q.bidPrice for q in quote_dict.values()])
  ask = sum([q.askPrice for q in quote_dict.values()])
  mid = (bid + ask) / Decimal(2)
  \<close>
\<close>

definition strangle_plain_quote :: "quote list \<Rightarrow> error + (rat \<times> rat \<times> rat)" where
  "strangle_plain_quote feed =
     (case listen_quotes 2 feed None of
        None \<Rightarrow> Inl Blocked
      | Some quote_dict \<Rightarrow>
     (case dec_sum (map (\<lambda>q. bidPrice q) (map snd quote_dict)) of
        Inl e \<Rightarrow> Inl e
      | Inr bid \<Rightarrow>
     (case dec_sum (map (\<lambda>q. askPrice q) (map snd quote_dict)) of
        Inl e \<Rightarrow> Inl e
      | Inr ask \<Rightarrow>
     (case mid_price bid ask of
        Inl e \<Rightarrow> Inl e
      | Inr mid \<Rightarrow> Inr (bid, ask, mid)))))"

text \<open>
  \<^verbatim>\<open>a + b - c - d\<close> on decimals, from the left: the bid and the ask of the iron
  condor are both of this shape.
  \<^verbatim>\<open>
  bid = (quote_dict[call_strike.call_streamer_symbol].bidPrice +
         quote_dict[put_strike.put_streamer_symbol].bidPrice -
         quote_dict[put_spread_strike.put_streamer_symbol].askPrice -
         quote_dict[call_spread_strike.call_streamer_symbol].askPrice)
  \<close>
\<close>

definition condor_side :: "rat \<Rightarrow> rat \<Rightarrow> rat \<Rightarrow> rat \<Rightarrow> error + rat" where
  "condor_side a b c d =
     (case dec_add a b of
        Inl e \<Rightarrow> Inl e
      | Inr ab \<Rightarrow>
          (case dec_sub ab c of
             Inl e \<Rightarrow> Inl e
           | Inr abc \<Rightarrow> dec_sub abc d))"

definition strangle_condor_quote ::
  "int \<Rightarrow> strike list \<Rightarrow> strike \<Rightarrow> strike \<Rightarrow> quote list \<Rightarrow> error + (rat \<times> rat \<times> rat)" where
  "strangle_condor_quote width strikes put_strike call_strike feed =
     (case find (\<lambda>s. strike_price s = strike_price put_strike - of_int width) strikes of
        None \<Rightarrow> Inl StopIteration
      | Some put_spread_strike \<Rightarrow>
     (case find (\<lambda>s. strike_price s = strike_price call_strike + of_int width) strikes of
        None \<Rightarrow> Inl StopIteration
      | Some call_spread_strike \<Rightarrow>
     (case listen_quotes 4 feed None of
        None \<Rightarrow> Inl Blocked
      | Some quote_dict \<Rightarrow>
     (case map_of quote_dict (call_streamer_symbol call_strike) of
        None \<Rightarrow> Inl KeyError
      | Some q_call \<Rightarrow>
     (case map_of quote_dict (put_streamer_symbol put_strike) of
        None \<Rightarrow> Inl KeyError
      | Some q_put \<Rightarrow>
     (case map_of quote_dict (put_streamer_symbol put_spread_strike) of
        None \<Rightarrow> Inl KeyError
      | Some q_put_spread \<Rightarrow>
     (case map_of quote_dict (call_streamer_symbol call_spread_strike) of
        None \<Rightarrow> Inl KeyError
      | Some q_call_spread \<Rightarrow>
     (case condor_side (bidPrice q_call) (bidPrice q_put)
             (askPrice q_put_spread) (askPrice q_call_spread) of
        Inl e \<Rightarrow> Inl e
      | Inr bid \<Rightarrow>
     (case condor_side (askPrice q_call) (askPrice q_put)
             (bidPrice q_put_spread) (bidPrice q_call_spread) of
        Inl e \<Rightarrow> Inl e
      | Inr ask \<Rightarrow>
     (case mid_price bid ask of
        Inl e \<Rightarrow> Inl e
      | Inr mid \<Rightarrow> Inr (bid, ask, mid)))))))))))"

definition strangle_quote ::
  "int option \<Rightarrow> strike list \<Rightarrow> strike \<Rightarrow> strike \<Rightarrow> quote list \<Rightarrow> error + (rat \<times> rat \<times> rat)" where
  "strangle_quote width strikes put_strike call_strike feed =
     (case width of
        None \<Rightarrow> strangle_plain_quote feed
      | Some w \<Rightarrow>
          if w \<noteq> 0 then strangle_condor_quote w strikes put_strike call_strike feed
          else strangle_plain_quote feed)"

section \<open>The limit price\<close>

text \<open>
  \<^verbatim>\<open>
  price = input('Please enter a limit price per quantity (default mid): ')
  if not price:
      price = round(mid, 2)
  price = Decimal(price)
  \<close>
  What the operator typed is \<open>Empty\<close> (the empty line), \<open>Parsed v\<close> (a line that the
  conversion accepts, with its value) or \<open>Unparsable\<close> (a non-empty line on which the
  conversion raises). \<^verbatim>\<open>round(mid, 2)\<close> on a \<^verbatim>\<open>Decimal\<close> is
  \<^verbatim>\<open>mid.quantize(Decimal('0.01'))\<close>: it rounds half to even at the second decimal
  and raises \<^verbatim>\<open>InvalidOperation\<close> when the result would have more than 28
  digits. \<^verbatim>\<open>Decimal(price)\<close> of an entered line is exact.
\<close>

datatype 'a reply = Empty | Parsed 'a | Unparsable

definition round2 :: "rat \<Rightarrow> rat" where
  "round2 x = of_int (round_half_even (x * 100)) / 100"

definition limit_price :: "rat reply \<Rightarrow> rat \<Rightarrow> error + rat" where
  "limit_price answer mid =
     (case answer of
        Empty \<Rightarrow>
          if 10 ^ 28 \<le> \<bar>round_half_even (mid * 100)\<bar> then Inl InvalidOperation
          else Inr (round2 mid)
      | Parsed p \<Rightarrow> Inr p
      | Unparsable \<Rightarrow> Inl InvalidOperation)"

section \<open>Legs and orders\<close>

text \<open>
  The contract resolver of the SDK: \<^verbatim>\<open>Option.get_option(sesh, symbol)\<close> returns
  one contract, \<^verbatim>\<open>Option.get_options(sesh, symbols)\<close> a list of contracts in an
  order of the server's choosing. Both are inputs of the model.
  \<^verbatim>\<open>build_leg(quantity, action)\<close> makes the leg of a contract.
\<close>

record resolver =
  get_option :: "string \<Rightarrow> instrument"
  get_options :: "string list \<Rightarrow> instrument list"

definition build_leg :: "instrument \<Rightarrow> int \<Rightarrow> order_action \<Rightarrow> leg" where
  "build_leg opt qty act = \<lparr>leg_symbol = symbol opt, quantity = qty, action = act\<rparr>"

text \<open>
  \<^verbatim>\<open>res.sort(key=lambda x: x.strike_price)\<close> is a stable ascending sort, as
  \<open>sort_key\<close> is. With \<^verbatim>\<open>reverse=True\<close> the order is descending and elements
  with equal keys keep their original order.
\<close>

definition sort_by_strike :: "instrument list \<Rightarrow> instrument list" where
  "sort_by_strike res = sort_key option_strike res"

definition sort_by_strike_reverse :: "instrument list \<Rightarrow> instrument list" where
  "sort_by_strike_reverse res = rev (sort_key option_strike (rev res))"

text \<open>
  \<^verbatim>\<open>
  res = Option.get_options(sesh, [short_symbol, spread_strike.call])
  res.sort(key=lambda x: x.strike_price)
  legs = [
    res[0].build_leg(abs(quantity),
        OrderAction.SELL_TO_OPEN if quantity < 0 else OrderAction.BUY_TO_OPEN),
    res[1].build_leg(abs(quantity),
        OrderAction.BUY_TO_OPEN if quantity < 0 else OrderAction.SELL_TO_OPEN)
  ]
  \<close>
  The argument \<open>fetched\<close> is the list that \<^verbatim>\<open>get_options\<close> returned. An index
  beyond the list raises \<^verbatim>\<open>IndexError\<close>.
\<close>

definition call_spread_legs :: "int \<Rightarrow> instrument list \<Rightarrow> error + leg list" where
  "call_spread_legs qty fetched =
     (case sort_by_strike fetched of
        r0 # r1 # _ \<Rightarrow>
          Inr [build_leg r0 \<bar>qty\<bar> (if qty < 0 then SELL_TO_OPEN else BUY_TO_OPEN),
               build_leg r1 \<bar>qty\<bar> (if qty < 0 then BUY_TO_OPEN else SELL_TO_OPEN)]
      | _ \<Rightarrow> Inl IndexError)"

text \<open>The put command sorts with \<^verbatim>\<open>reverse=True\<close>; the rest is the same.\<close>

definition put_spread_legs :: "int \<Rightarrow> instrument list \<Rightarrow> error + leg list" where
  "put_spread_legs qty fetched =
     (case sort_by_strike_reverse fetched of
        r0 # r1 # _ \<Rightarrow>
          Inr [build_leg r0 \<bar>qty\<bar> (if qty < 0 then SELL_TO_OPEN else BUY_TO_OPEN),
               build_leg r1 \<bar>qty\<bar> (if qty < 0 then BUY_TO_OPEN else SELL_TO_OPEN)]
      | _ \<Rightarrow> Inl IndexError)"

text \<open>
  \<^verbatim>\<open>
  short_symbol = next(s.call for s in subchain.strikes if s.strike_price == strike)
  if width:
      ... the spread legs above ...
  else:
      call = Option.get_option(sesh, short_symbol)
      legs = [call.build_leg(abs(quantity),
                 OrderAction.SELL_TO_OPEN if quantity < 0 else OrderAction.BUY_TO_OPEN)]
  \<close>
  \<^verbatim>\<open>spread_strike\<close> is the strike found by the pricing block, looked up again here
  by the same search.
\<close>

definition call_legs ::
  "resolver \<Rightarrow> int \<Rightarrow> int option \<Rightarrow> strike list \<Rightarrow> rat \<Rightarrow> error + leg list" where
  "call_legs sdk qty width strikes strk =
     (case find (\<lambda>s. strike_price s = strk) strikes of
        None \<Rightarrow> Inl StopIteration
      | Some s0 \<Rightarrow>
          (let short_symbol = call s0;
               single = Inr [build_leg (get_option sdk short_symbol) \<bar>qty\<bar>
                               (if qty < 0 then SELL_TO_OPEN else BUY_TO_OPEN)]
           in case width of
                None \<Rightarrow> single
              | Some w \<Rightarrow>
                  if w \<noteq> 0 then
                    (case find (\<lambda>s. strike_price s = strk + of_int w) strikes of
                       None \<Rightarrow> Inl StopIteration
                     | Some spread_strike \<Rightarrow>
                         call_spread_legs qty
                           (get_options sdk [short_symbol, call spread_strike]))
                  else single))"

definition put_legs ::
  "resolver \<Rightarrow> int \<Rightarrow> int option \<Rightarrow> strike list \<Rightarrow> rat \<Rightarrow> error + leg list" where
  "put_legs sdk qty width strikes strk =
     (case find (\<lambda>s. strike_price s = strk) strikes of
        None \<Rightarrow> Inl StopIteration
      | Some s0 \<Rightarrow>
          (let short_symbol = put s0;
               single = Inr [build_leg (get_option sdk short_symbol) \<bar>qty\<bar>
                               (if qty < 0 then SELL_TO_OPEN else BUY_TO_OPEN)]
           in case width of
                None \<Rightarrow> single
              | Some w \<Rightarrow>
                  if w \<noteq> 0 then
                    (case find (\<lambda>s. strike_price s = strk - of_int w) strikes of
                       None \<Rightarrow> Inl StopIteration
                     | Some spread_strike \<Rightarrow>
                         put_spread_legs qty
                           (get_options sdk [short_symbol, put spread_strike]))
                  else single))"

text \<open>
  \<^verbatim>\<open>
  tt_symbols = [put_strike.put, call_strike.call]
  if width:
      tt_symbols += [put_spread_strike.put, call_spread_strike.call]
  options = Option.get_options(sesh, tt_symbols)
  options.sort(key=lambda o: o.strike_price)
  if width:
      legs = [options[0] BUY if quantity < 0 else SELL,
              options[1] SELL if quantity < 0 else BUY,
              options[2] SELL if quantity < 0 else BUY,
              options[3] BUY if quantity < 0 else SELL]
  else:
      legs = [options[0] SELL if quantity < 0 else BUY,
              options[1] SELL if quantity < 0 else BUY]
  \<close>
\<close>

definition strangle_legs ::
  "resolver \<Rightarrow> int \<Rightarrow> int option \<Rightarrow> strike list \<Rightarrow> strike \<Rightarrow> strike \<Rightarrow> error + leg list" where
  "strangle_legs sdk qty width strikes put_strike call_strike =
     (let tt_symbols = [put put_strike, call call_strike];
          primary = (if qty < 0 then SELL_TO_OPEN else BUY_TO_OPEN);
          hedge = (if qty < 0 then BUY_TO_OPEN else SELL_TO_OPEN);
          plain =
            (case sort_by_strike (get_options sdk tt_symbols) of
               o0 # o1 # _ \<Rightarrow> Inr [build_leg o0 \<bar>qty\<bar> primary, build_leg o1 \<bar>qty\<bar> primary]
             | _ \<Rightarrow> Inl IndexError)
      in case width of
           None \<Rightarrow> plain
         | Some w \<Rightarrow>
             if w \<noteq> 0 then
               (case find (\<lambda>s. strike_price s = strike_price put_strike - of_int w) strikes of
                  None \<Rightarrow> Inl StopIteration
                | Some put_spread_strike \<Rightarrow>
               (case find (\<lambda>s. strike_price s = strike_price call_strike + of_int w) strikes of
                  None \<Rightarrow> Inl StopIteration
                | Some call_spread_strike \<Rightarrow>
               (case sort_by_strike
                       (get_options sdk
                          (tt_symbols @ [put put_spread_strike, call call_spread_strike])) of
                  o0 # o1 # o2 # o3 # _ \<Rightarrow>
                    Inr [build_leg o0 \<bar>qty\<bar> hedge, build_leg o1 \<bar>qty\<bar> primary,
                         build_leg o2 \<bar>qty\<bar> primary, build_leg o3 \<bar>qty\<bar> hedge]
                | _ \<Rightarrow> Inl IndexError)))
             else plain)"

text \<open>
  \<^verbatim>\<open>
  order = NewOrder(
      time_in_force=OrderTimeInForce.GTC if gtc else OrderTimeInForce.DAY,
      order_type=OrderType.LIMIT,
      legs=legs,
      price=price,
      price_effect=PriceEffect.CREDIT if quantity < 0 else PriceEffect.DEBIT
  )
  \<close>
  The constructor call is written out once in each of the three commands.
\<close>

definition call_order :: "bool \<Rightarrow> int \<Rightarrow> leg list \<Rightarrow> rat \<Rightarrow> new_order" where
  "call_order gtc qty lgs prc =
     \<lparr>time_in_force = (if gtc then GTC else DAY),
      order_type = LIMIT,
      legs = lgs,
      price = prc,
      price_effect = (if qty < 0 then CREDIT else DEBIT)\<rparr>"

definition put_order :: "bool \<Rightarrow> int \<Rightarrow> leg list \<Rightarrow> rat \<Rightarrow> new_order" where
  "put_order gtc qty lgs prc =
     \<lparr>time_in_force = (if gtc then GTC else DAY),
      order_type = LIMIT,
      legs = lgs,
      price = prc,
      price_effect = (if qty < 0 then CREDIT else DEBIT)\<rparr>"

definition strangle_order :: "bool \<Rightarrow> int \<Rightarrow> leg list \<Rightarrow> rat \<Rightarrow> new_order" where
  "strangle_order gtc qty lgs prc =
     \<lparr>time_in_force = (if gtc then GTC else DAY),
      order_type = LIMIT,
      legs = lgs,
      price = prc,
      price_effect = (if qty < 0 then CREDIT else DEBIT)\<rparr>"

section \<open>From the resolved strike to the order\<close>

text \<open>
  The part of each command between the strike selection and the dry run: price the
  combination, ask for the limit price, build the legs, build the order. The result is
  the displayed triple \<^verbatim>\<open>(bid, ask, mid)\<close> and the order, or the first error.
\<close>

definition call_body ::
  "resolver \<Rightarrow> int \<Rightarrow> int option \<Rightarrow> bool \<Rightarrow> strike list \<Rightarrow> rat \<Rightarrow> greeks option
     \<Rightarrow> quote list \<Rightarrow> rat reply \<Rightarrow> error + ((rat \<times> rat \<times> rat) \<times> new_order)" where
  "call_body sdk qty width gtc strikes strk selected feed answer =
     (case call_quote width strikes strk selected feed of
        Inl e \<Rightarrow> Inl e
      | Inr (bid, ask, mid) \<Rightarrow>
     (case limit_price answer mid of
        Inl e \<Rightarrow> Inl e
      | Inr prc \<Rightarrow>
     (case call_legs sdk qty width strikes strk of
        Inl e \<Rightarrow> Inl e
      | Inr lgs \<Rightarrow> Inr ((bid, ask, mid), call_order gtc qty lgs prc))))"

definition put_body ::
  "resolver \<Rightarrow> int \<Rightarrow> int option \<Rightarrow> bool \<Rightarrow> strike list \<Rightarrow> rat \<Rightarrow> greeks option
     \<Rightarrow> quote list \<Rightarrow> rat reply \<Rightarrow> error + ((rat \<times> rat \<times> rat) \<times> new_order)" where
  "put_body sdk qty width gtc strikes strk selected feed answer =
     (case put_quote width strikes strk selected feed of
        Inl e \<Rightarrow> Inl e
      | Inr (bid, ask, mid) \<Rightarrow>
     (case limit_price answer mid of
        Inl e \<Rightarrow> Inl e
      | Inr prc \<Rightarrow>
     (case put_legs sdk qty width strikes strk of
        Inl e \<Rightarrow> Inl e
      | Inr lgs \<Rightarrow> Inr ((bid, ask, mid), put_order gtc qty lgs prc))))"

definition strangle_body ::
  "resolver \<Rightarrow> int \<Rightarrow> int option \<Rightarrow> bool \<Rightarrow> strike list \<Rightarrow> strike \<Rightarrow> strike
     \<Rightarrow> quote list \<Rightarrow> rat reply \<Rightarrow> error + ((rat \<times> rat \<times> rat) \<times> new_order)" where
  "strangle_body sdk qty width gtc strikes put_strike call_strike feed answer =
     (case strangle_quote width strikes put_strike call_strike feed of
        Inl e \<Rightarrow> Inl e
      | Inr (bid, ask, mid) \<Rightarrow>
     (case limit_price answer mid of
        Inl e \<Rightarrow> Inl e
      | Inr prc \<Rightarrow>
     (case strangle_legs sdk qty width strikes put_strike call_strike of
        Inl e \<Rightarrow> Inl e
      | Inr lgs \<Rightarrow> Inr ((bid, ask, mid), strangle_order gtc qty lgs prc))))"

text \<open>The displayed prices of a result, errors kept.\<close>

definition shown :: "error + ((rat \<times> rat \<times> rat) \<times> new_order) \<Rightarrow> error + (rat \<times> rat)" where
  "shown r = (case r of Inl e \<Rightarrow> Inl e | Inr ((bid, ask, mid), ord) \<Rightarrow> Inr (bid, ask))"

section \<open>Expirations\<close>

text \<open>
  A \<^verbatim>\<open>datetime.date\<close> with its fields; \<^verbatim>\<open>weekday()\<close> is computed as the
  standard library does, from the proleptic Gregorian ordinal, with Monday 0 and
  Friday 4.
\<close>

record date =
  year :: int
  month :: int
  day :: int

definition is_leap :: "int \<Rightarrow> bool" where
  "is_leap y = (y mod 4 = 0 \<and> (y mod 100 \<noteq> 0 \<or> y mod 400 = 0))"

definition days_before_year :: "int \<Rightarrow> int" where
  "days_before_year y = (let p = y - 1 in p * 365 + p div 4 - p div 100 + p div 400)"

definition days_before_month :: "int \<Rightarrow> int \<Rightarrow> int" where
  "days_before_month y m =
     sum_list (take (nat (m - 1)) [31, 28, 31, 30, 31, 30, 31, 31, 30, 31, 30, 31])
     + (if m > 2 \<and> is_leap y then 1 else 0)"

definition toordinal :: "date \<Rightarrow> int" where
  "toordinal d = days_before_year (year d) + days_before_month (year d) (month d) + day d"

definition weekday :: "date \<Rightarrow> int" where
  "weekday d = (toordinal d + 6) mod 7"

text \<open>
  \<^verbatim>\<open>
  def is_monthly(day: date) -> bool:
      return day.weekday() == 4 and 15 <= day.day <= 21
  \<close>
\<close>

definition is_monthly :: "date \<Rightarrow> bool" where
  "is_monthly d = (weekday d = 4 \<and> 15 \<le> day d \<and> day d \<le> 21)"

text \<open>
  \<^verbatim>\<open>
  exps = [e.expiration_date for e in chain.expirations]
  if not include_weeklies:
      exps = [e for e in exps if is_monthly(e)]
  \<close>
  This is the list that \<^verbatim>\<open>choose_expiration\<close> prints and chooses from.
\<close>

definition offered :: "date list \<Rightarrow> bool \<Rightarrow> date list" where
  "offered chain_dates include_weeklies =
     (if \<not> include_weeklies then filter is_monthly chain_dates else chain_dates)"

text \<open>\<^verbatim>\<open>exps.index(x)\<close>: the first position of \<open>x\<close>, \<^verbatim>\<open>ValueError\<close> if absent.\<close>

fun index_of :: "'a \<Rightarrow> 'a list \<Rightarrow> nat option" where
  "index_of x [] = None"
| "index_of x (y # ys) = (if y = x then Some 0 else map_option Suc (index_of x ys))"

text \<open>
  \<^verbatim>\<open>
  choice = 0
  while choice not in range(1, len(exps) + 1):
      try:
          raw = input('Please choose an expiration: ')
          choice = int(raw)
      except ValueError:
          if not raw:
              return exps[default]
  return exps[choice - 1]
  \<close>
  The operator's lines are consumed one per prompt; \<^verbatim>\<open>input\<close> raises
  \<^verbatim>\<open>EOFError\<close> when there is none left.
\<close>

fun choose_loop :: "date list \<Rightarrow> nat \<Rightarrow> int \<Rightarrow> int reply list \<Rightarrow> error + date" where
  "choose_loop exps dflt choice [] =
     (if 1 \<le> choice \<and> choice < int (length exps) + 1 then Inr (exps ! nat (choice - 1))
      else Inl EOFError)"
| "choose_loop exps dflt choice (raw # rest) =
     (if 1 \<le> choice \<and> choice < int (length exps) + 1 then Inr (exps ! nat (choice - 1))
      else case raw of
             Empty \<Rightarrow> Inr (exps ! dflt)
           | Parsed k \<Rightarrow> choose_loop exps dflt k rest
           | Unparsable \<Rightarrow> choose_loop exps dflt choice rest)"

text \<open>
  \<^verbatim>\<open>default = exps.index(get_tasty_monthly())\<close>: the SDK's
  \<^verbatim>\<open>get_tasty_monthly()\<close> is not part of the repository; its value is the
  parameter \<open>tasty_monthly\<close>.
\<close>

definition choose_expiration ::
  "date list \<Rightarrow> bool \<Rightarrow> date \<Rightarrow> int reply list \<Rightarrow> error + date" where
  "choose_expiration chain_dates include_weeklies tasty_monthly replies =
     (let exps = offered chain_dates include_weeklies
      in case index_of tasty_monthly exps of
           None \<Rightarrow> Inl ValueError
         | Some dflt \<Rightarrow> choose_loop exps dflt 0 replies)"

section \<open>Example data\<close>

text \<open>
  Two strikes of an underlying XYZ, a resolver that answers in the reverse of the order
  asked, and four quotes: the concrete inputs of the instances below.
\<close>

definition xyz_100 :: strike where
  "xyz_100 = \<lparr>strike_price = 100, call = ''XYZ C100'', put = ''XYZ P100'',
      call_streamer_symbol = ''.XYZC100'', put_streamer_symbol = ''.XYZP100''\<rparr>"

definition xyz_110 :: strike where
  "xyz_110 = \<lparr>strike_price = 110, call = ''XYZ C110'', put = ''XYZ P110'',
      call_streamer_symbol = ''.XYZC110'', put_streamer_symbol = ''.XYZP110''\<rparr>"

definition xyz_resolver :: resolver where
  "xyz_resolver =
     \<lparr>get_option = (\<lambda>sym. \<lparr>symbol = sym, option_strike = 100\<rparr>),
      get_options = (\<lambda>syms. rev (map (\<lambda>sym. \<lparr>symbol = sym,
          option_strike = (if sym \<in> {''XYZ C100'', ''XYZ P100''} then 100 else 110)\<rparr>) syms))\<rparr>"

definition xyz_quotes :: "quote list" where
  "xyz_quotes =
     [\<lparr>eventSymbol = ''.XYZC110'', bidPrice = 1, askPrice = 11 / 10\<rparr>,
      \<lparr>eventSymbol = ''.XYZC100'', bidPrice = 3, askPrice = 13 / 4\<rparr>,
      \<lparr>eventSymbol = ''.XYZP100'', bidPrice = 1, askPrice = 11 / 10\<rparr>,
      \<lparr>eventSymbol = ''.XYZP110'', bidPrice = 3, askPrice = 13 / 4\<rparr>]"

text \<open>
  The feed of the aggregation example: X, then Y, then X again; and a feed on which the
  underlying's own quotes arrive between those of two options.
\<close>

definition xy_feed :: "quote list" where
  "xy_feed =
     [\<lparr>eventSymbol = ''X'', bidPrice = 1, askPrice = 1\<rparr>,
      \<lparr>eventSymbol = ''Y'', bidPrice = 2, askPrice = 2\<rparr>,
      \<lparr>eventSymbol = ''X'', bidPrice = 6 / 5, askPrice = 6 / 5\<rparr>]"

definition chain_feed :: "quote list" where
  "chain_feed =
     [\<lparr>eventSymbol = ''XYZ'', bidPrice = 100, askPrice = 101\<rparr>,
      \<lparr>eventSymbol = ''.XYZC100'', bidPrice = 3, askPrice = 13 / 4\<rparr>,
      \<lparr>eventSymbol = ''XYZ'', bidPrice = 101, askPrice = 102\<rparr>,
      \<lparr>eventSymbol = ''.XYZP100'', bidPrice = 1, askPrice = 11 / 10\<rparr>]"

text \<open>The readings of the selection example, and the expirations of a chain.\<close>

definition abc_greeks :: "greeks list" where
  "abc_greeks =
     [\<lparr>eventSymbol = ''A'', delta = 3 / 10\<rparr>, \<lparr>eventSymbol = ''B'', delta = 8 / 25\<rparr>,
      \<lparr>eventSymbol = ''C'', delta = 1 / 4\<rparr>]"

definition xyz_dates :: "date list" where
  "xyz_dates =
     [\<lparr>year = 2024, month = 6, day = 14\<rparr>, \<lparr>year = 2024, month = 6, day = 21\<rparr>,
      \<lparr>year = 2024, month = 6, day = 28\<rparr>, \<lparr>year = 2024, month = 7, day = 19\<rparr>,
      \<lparr>year = 2024, month = 8, day = 15\<rparr>]"

text \<open>Two call quotes, the first with a bid of 29 significant digits.\<close>

definition long_quotes :: "quote list" where
  "long_quotes =
     [\<lparr>eventSymbol = ''.XYZC110'', bidPrice = 1 / 2, askPrice = 1\<rparr>,
      \<lparr>eventSymbol = ''.XYZC100'', bidPrice = 3 + 1 / 10 ^ 28, askPrice = 4\<rparr>]"

lemmas xyz_defs = xyz_100_def xyz_110_def xyz_resolver_def xyz_quotes_def

section \<open>Facts about the decimal context\<close>

text \<open>
  Rounding half to even is nearest, with ties to even; \<open>adjusted\<close> brackets a value
  between two powers of ten; fitting to the context rounds at the 28th significant
  digit, and is exact on a decimal of at most 28 digits.
\<close>

lemma rhe_close: "\<bar>of_int (round_half_even y) - y\<bar> * 2 \<le> 1"
proof -
  have "of_int \<lfloor>y\<rfloor> \<le> y" "y < of_int \<lfloor>y\<rfloor> + 1" by linarith+
  then show ?thesis by (auto simp: round_half_even_def Let_def)
qed

lemma rhe_tie_even: "\<bar>of_int (round_half_even y) - y\<bar> * 2 = 1 \<Longrightarrow> even (round_half_even y)"
proof -
  assume a: "\<bar>of_int (round_half_even y) - y\<bar> * 2 = 1"
  have "of_int \<lfloor>y\<rfloor> \<le> y" "y < of_int \<lfloor>y\<rfloor> + 1" by linarith+
  with a show ?thesis
    by (auto simp: round_half_even_def Let_def split: if_splits)
qed

lemma rhe_of_int: "round_half_even (of_int k) = k"
  by (simp add: round_half_even_def)

lemma pow10_powi: "pow10 e = 10 powi e"
  by (simp add: pow10_def power_int_def inverse_eq_divide power_one_over)

lemma pow10_pos: "0 < pow10 e"
  by (simp add: pow10_powi)

lemma pow10_add: "pow10 (a + b) = pow10 a * pow10 b"
  by (simp add: pow10_powi power_int_add)

lemma pow10_nat: "pow10 (int n) = 10 ^ n"
  by (simp add: pow10_def)

lemma pow10_less: "a < b \<Longrightarrow> pow10 a < pow10 b"
  by (simp add: pow10_powi power_int_strict_increasing)

lemma pow10_le: "a \<le> b \<Longrightarrow> pow10 a \<le> pow10 b"
  by (simp add: pow10_powi power_int_increasing)

lemma pow10_less_cancel: "pow10 a < pow10 b \<Longrightarrow> a < b"
  using pow10_le [of b a] by (cases "a < b") auto

lemma pow10_diff_int: "a \<le> b \<Longrightarrow> pow10 b = of_int (10 ^ nat (b - a)) * pow10 a"
proof -
  assume "a \<le> b"
  then have "pow10 b = pow10 (int (nat (b - a)) + a)" by simp
  also have "\<dots> = 10 ^ nat (b - a) * pow10 a"
    by (simp only: pow10_add pow10_nat)
  finally show ?thesis by simp
qed

lemma adjusted_bounds:
  assumes "x \<noteq> 0"
  shows "pow10 (adjusted x) \<le> \<bar>x\<bar> \<and> \<bar>x\<bar> < pow10 (adjusted x + 1)"
proof (cases "1 \<le> \<bar>x\<bar>")
  case True
  define n where "n = nat \<lfloor>\<bar>x\<bar>\<rfloor>"
  have n: "0 < n" using True by (simp add: n_def)
  have nx: "of_nat n \<le> \<bar>x\<bar>" "\<bar>x\<bar> < of_nat n + 1"
    using True by (simp_all add: n_def) linarith+
  define d where "d = floorlog 10 n"
  from floorlog_bounds [of n 10] n have b: "10 ^ (d - 1) \<le> n" "n < 10 ^ d"
    by (simp_all add: d_def)
  have d: "0 < d" using b n by (cases d) auto
  have adj: "adjusted x = int d - 1"
    using True by (simp add: adjusted_def Let_def n_def d_def)
  have "(10::rat) ^ (d - 1) \<le> of_nat n" using b(1)
    by (metis of_nat_le_iff of_nat_numeral of_nat_power)
  with nx(1) have lo: "(10::rat) ^ (d - 1) \<le> \<bar>x\<bar>" by linarith
  have "of_nat n + 1 \<le> (10::rat) ^ d"
  proof -
    from b(2) have "n + 1 \<le> 10 ^ d" by simp
    then have "(of_nat (n + 1) :: rat) \<le> of_nat (10 ^ d)" by (simp only: of_nat_le_iff)
    then show ?thesis by simp
  qed
  with nx(2) have hi: "\<bar>x\<bar> < (10::rat) ^ d" by linarith
  have "pow10 (int d - 1) = 10 ^ (d - 1)" "pow10 (int d - 1 + 1) = 10 ^ d"
    using d by (simp_all add: pow10_def nat_diff_distrib)
  with lo hi show ?thesis by (simp only: adj)
next
  case False
  define a where "a = \<bar>x\<bar>"
  have a: "0 < a" "a < 1" using False assms by (simp_all add: a_def)
  define m where "m = nat \<lfloor>1 / a\<rfloor>"
  have "1 < 1 / a" using a by simp
  then have m: "0 < m" by (simp add: m_def)
  have mx: "of_nat m \<le> 1 / a" "1 / a < of_nat m + 1"
    using \<open>1 < 1 / a\<close> by (simp_all add: m_def) linarith+
  define d where "d = floorlog 10 m"
  from floorlog_bounds [of m 10] m have b: "10 ^ (d - 1) \<le> m" "m < 10 ^ d"
    by (simp_all add: d_def)
  have d: "0 < d" using b m by (cases d) auto
  have lo: "(10::rat) ^ (d - 1) \<le> 1 / a"
  proof -
    have "(10::rat) ^ (d - 1) \<le> of_nat m" using b(1)
      by (metis of_nat_le_iff of_nat_numeral of_nat_power)
    with mx(1) show ?thesis by linarith
  qed
  have hi: "1 / a < (10::rat) ^ d"
  proof -
    from b(2) have "m + 1 \<le> 10 ^ d" by simp
    then have "(of_nat (m + 1) :: rat) \<le> of_nat (10 ^ d)" by (simp only: of_nat_le_iff)
    then have "of_nat m + 1 \<le> (10::rat) ^ d" by simp
    with mx(2) show ?thesis by linarith
  qed
  from lo a have lo': "a * 10 ^ (d - 1) \<le> 1"
    by (simp add: field_simps)
  from hi a have hi': "1 < a * 10 ^ d"
    by (simp add: field_simps)
  have p1: "pow10 (1 - int d) = 1 / 10 ^ (d - 1)"
    using d by (cases d) (simp_all add: pow10_def)
  have p2: "pow10 (- int d) = 1 / 10 ^ d"
    using d by (simp add: pow10_def)
  have p3: "pow10 (2 - int d) = 10 / 10 ^ (d - 1)"
  proof -
    have e: "2 - int d = 1 + (1 - int d)" by simp
    have t: "pow10 1 = 10" by (simp add: pow10_def)
    have "pow10 (2 - int d) = pow10 1 * pow10 (1 - int d)"
      unfolding e by (rule pow10_add)
    then show ?thesis unfolding t p1 by simp
  qed
  have dd: "(10::rat) ^ d = 10 * 10 ^ (d - 1)" using d by (cases d) simp_all
  show ?thesis
  proof (cases "1 \<le> a * 10 ^ (d - 1)")
    case True
    then have adj: "adjusted x = 1 - int d"
      using False by (simp add: adjusted_def Let_def a_def m_def d_def)
    from True lo' have eq: "a * 10 ^ (d - 1) = 1" by simp
    then have "a = 1 / 10 ^ (d - 1)" by (simp add: field_simps)
    moreover have "1 / (10::rat) ^ (d - 1) < 10 / 10 ^ (d - 1)"
      by (simp add: divide_strict_right_mono)
    ultimately show ?thesis
      by (simp only: adj p1 a_def [symmetric]) (simp add: p3)
  next
    case F: False
    then have adj: "adjusted x = - int d"
      using False by (simp add: adjusted_def Let_def a_def m_def d_def)
    have "1 / 10 ^ d \<le> a" using hi' by (simp add: field_simps)
    moreover have "a < 1 / 10 ^ (d - 1)" using F by (simp add: field_simps)
    ultimately show ?thesis
      by (simp add: adj p1 p2 a_def [symmetric])
  qed
qed

lemma nearest_even_scaled:
  assumes u: "0 < u"
  shows "nearest_even u x (of_int (round_half_even (x / u)) * u)"
proof -
  define k where "k = round_half_even (x / u)"
  have eq: "\<bar>of_int k * u - x\<bar> = \<bar>of_int k - x / u\<bar> * u"
  proof -
    have "of_int k * u - x = (of_int k - x / u) * u" using u by (simp add: field_simps)
    then show ?thesis using u by (simp add: abs_mult)
  qed
  have c: "\<bar>of_int k - x / u\<bar> * 2 \<le> 1" unfolding k_def by (rule rhe_close)
  have "\<bar>of_int k * u - x\<bar> * 2 = (\<bar>of_int k - x / u\<bar> * 2) * u" by (simp add: eq)
  also have "\<dots> \<le> 1 * u" using c u by (intro mult_right_mono) simp_all
  finally have le: "\<bar>of_int k * u - x\<bar> * 2 \<le> u" by simp
  have tie: "even k" if "\<bar>of_int k * u - x\<bar> * 2 = u"
  proof -
    from that have "(\<bar>of_int k - x / u\<bar> * 2) * u = 1 * u" by (simp add: eq)
    then have "\<bar>of_int k - x / u\<bar> * 2 = 1" using u by simp
    then show ?thesis unfolding k_def by (rule rhe_tie_even)
  qed
  show ?thesis unfolding nearest_even_def k_def [symmetric]
    using le tie by blast
qed

lemma dec_fix_rounded28: "dec_fix x = Inr r \<Longrightarrow> rounded28 x r"
proof (cases "x = 0")
  case True
  assume "dec_fix x = Inr r"
  with True show ?thesis by (simp add: dec_fix_def rounded28_def)
next
  case False
  assume a: "dec_fix x = Inr r"
  define q where "q = adjusted x - 27"
  from a False have r: "r = of_int (round_half_even (x / pow10 (max q Etiny))) * pow10 (max q Etiny)"
    by (simp add: dec_fix_def Let_def prec_def q_def split: if_splits)
  from adjusted_bounds [OF False] have "pow10 (q + 27) \<le> \<bar>x\<bar>" "\<bar>x\<bar> < pow10 (q + 28)"
    by (simp_all add: q_def add.commute)
  moreover have "nearest_even (pow10 (max q Etiny)) x r"
    unfolding r by (rule nearest_even_scaled) (rule pow10_pos)
  ultimately show ?thesis using False unfolding rounded28_def by auto
qed

lemma nearest_even_exact:
  assumes n: "nearest_even u x r" and u: "0 < u" and x: "x = of_int c * u"
  shows "r = x"
proof -
  from n obtain k where k: "r = of_int k * u" "\<bar>r - x\<bar> * 2 \<le> u"
    unfolding nearest_even_def by blast
  have "r - x = of_int (k - c) * u" by (simp add: k(1) x algebra_simps)
  then have "\<bar>r - x\<bar> = of_int \<bar>k - c\<bar> * u" using u by (simp add: abs_mult)
  with k(2) have "(of_int (\<bar>k - c\<bar> * 2) :: rat) * u \<le> 1 * u" by simp
  then have "(of_int (\<bar>k - c\<bar> * 2) :: rat) \<le> 1" using u by (simp only: mult_le_cancel_right_pos)
  then have "\<bar>k - c\<bar> * 2 \<le> 1" by (metis of_int_le_1_iff)
  then have "k = c" by arith
  then show ?thesis by (simp add: k(1) x)
qed

lemma rounded28_exact:
  assumes f: "fits28 x" and r: "rounded28 x r"
  shows "r = x"
proof (cases "x = 0")
  case True
  with r show ?thesis by (simp add: rounded28_def)
next
  case False
  from f obtain c e where ce: "x = of_int c * pow10 e" "\<bar>c\<bar> < 10 ^ 28" "Etiny \<le> e"
    unfolding fits28_def by blast
  from r False obtain q where q: "pow10 (q + 27) \<le> \<bar>x\<bar>"
    "nearest_even (pow10 (max q Etiny)) x r"
    unfolding rounded28_def by auto
  have "\<bar>x\<bar> = of_int \<bar>c\<bar> * pow10 e" using pow10_pos [of e] by (simp add: ce(1) abs_mult)
  moreover have "(of_int \<bar>c\<bar> :: rat) < 10 ^ 28" using ce(2)
    by (metis of_int_less_iff of_int_numeral of_int_power)
  ultimately have "\<bar>x\<bar> < 10 ^ 28 * pow10 e" using pow10_pos [of e] by simp
  also have "\<dots> = pow10 (28 + e)" by (simp only: pow10_add) (simp add: pow10_def)
  finally have "pow10 (q + 27) < pow10 (28 + e)" using q(1) by simp
  then have "q + 27 < 28 + e" by (rule pow10_less_cancel)
  then have le: "max q Etiny \<le> e" using ce(3) by simp
  have "x = of_int (c * 10 ^ nat (e - max q Etiny)) * pow10 (max q Etiny)"
    by (simp add: ce(1) pow10_diff_int [OF le])
  from nearest_even_exact [OF q(2) pow10_pos this] show ?thesis .
qed

lemma dec_fix_exact: "dec_fix x = Inr r \<Longrightarrow> fits28 x \<Longrightarrow> r = x"
  by (rule rounded28_exact [OF _ dec_fix_rounded28])

lemma limit_price_nearest:
  "limit_price Empty mid = Inr p \<Longrightarrow> nearest_even (1 / 100) mid p"
proof -
  assume "limit_price Empty mid = Inr p"
  then have p: "p = of_int (round_half_even (mid * 100)) * (1 / 100)"
    by (simp add: limit_price_def round2_def split: if_splits)
  have "nearest_even (1 / 100) mid (of_int (round_half_even (mid / (1 / 100))) * (1 / 100))"
    by (rule nearest_even_scaled) simp
  then show ?thesis unfolding p by simp
qed

lemma limit_price_cases:
  "limit_price answer mid = Inr p \<Longrightarrow>
     (answer = Empty \<longrightarrow> nearest_even (1 / 100) mid p) \<and> (\<forall>v. answer = Parsed v \<longrightarrow> p = v)"
  by (cases answer) (auto simp: limit_price_nearest, simp_all add: limit_price_def)

lemma limit_price_Parsed: "limit_price (Parsed v) mid = Inr v"
  by (simp add: limit_price_def)

text \<open>
  Away from the exponent limits the context never raises: a result below \<open>pow10 Emax\<close>
  in absolute value is delivered, and rounding at most doubles it.
\<close>

lemma dec_fix_total:
  assumes x: "\<bar>x\<bar> < pow10 Emax"
  shows "\<exists>r. dec_fix x = Inr r \<and> \<bar>r\<bar> \<le> 2 * \<bar>x\<bar> + 1"
proof (cases "x = 0")
  case True
  then show ?thesis by (simp add: dec_fix_def)
next
  case False
  define q where "q = max (adjusted x - 27) Etiny"
  define r where "r = of_int (round_half_even (x / pow10 q)) * pow10 q"
  have "nearest_even (pow10 q) x r"
    unfolding r_def by (rule nearest_even_scaled) (rule pow10_pos)
  then have close: "\<bar>r - x\<bar> * 2 \<le> pow10 q" by (auto simp: nearest_even_def)
  from adjusted_bounds [OF False] have ax: "pow10 (adjusted x) \<le> \<bar>x\<bar>" by simp
  with x have "pow10 (adjusted x) < pow10 Emax" by linarith
  then have "adjusted x < Emax" by (rule pow10_less_cancel)
  then have qE: "q \<le> Emax" by (simp add: q_def Etiny_def Emax_def prec_def)
  have small: "pow10 q \<le> \<bar>x\<bar> + 1"
  proof (cases "Etiny \<le> adjusted x - 27")
    case True
    then have "q = adjusted x - 27" by (simp add: q_def)
    then have "pow10 q \<le> pow10 (adjusted x)" by (simp add: pow10_le)
    with ax show ?thesis by linarith
  next
    case False
    then have "q = Etiny" by (simp add: q_def)
    then have "pow10 q \<le> pow10 0" by (simp add: pow10_le Etiny_def prec_def)
    then show ?thesis by (simp add: pow10_def)
  qed
  have tri: "\<bar>r\<bar> \<le> \<bar>x\<bar> + \<bar>r - x\<bar>" by simp
  have lin1: "R \<le> 2 * A + 1" if "R \<le> A + D" "D * 2 \<le> P" "P \<le> A + 1" "0 \<le> A"
    for R A D P :: rat using that by linarith
  have lin2: "R < 2 * M" if "R \<le> A + D" "D * 2 \<le> P" "P \<le> M" "A < M" "0 < M"
    for R A D P M :: rat using that by linarith
  have b: "\<bar>r\<bar> \<le> 2 * \<bar>x\<bar> + 1"
    by (rule lin1 [OF tri close small abs_ge_zero])
  have no: "\<not> (r \<noteq> 0 \<and> Emax < adjusted r)"
  proof
    assume a: "r \<noteq> 0 \<and> Emax < adjusted r"
    then have "pow10 (Emax + 1) \<le> pow10 (adjusted r)" by (simp add: pow10_le)
    also have "\<dots> \<le> \<bar>r\<bar>" using adjusted_bounds [of r] a by simp
    finally have big: "pow10 (Emax + 1) \<le> \<bar>r\<bar>" .
    have "pow10 q \<le> pow10 Emax" using qE by (rule pow10_le)
    from lin2 [OF tri close this x pow10_pos] have "\<bar>r\<bar> < 2 * pow10 Emax" .
    moreover have "pow10 (Emax + 1) = pow10 Emax * 10"
      by (simp only: pow10_add) (simp add: pow10_def)
    ultimately show False using big pow10_pos [of Emax] by linarith
  qed
  have "dec_fix x = Inr r"
    using False no by (simp add: dec_fix_def Let_def prec_def q_def r_def)
  with b show ?thesis by blast
qed

lemma big_below_Emax: "(10 ^ 102 :: rat) \<le> pow10 Emax"
proof -
  have "pow10 102 \<le> pow10 Emax" by (rule pow10_le) (simp add: Emax_def)
  then show ?thesis by (simp add: pow10_def)
qed

lemma mid_price_returns:
  assumes "\<bar>bid\<bar> \<le> 5 * 10 ^ 100" "\<bar>ask\<bar> \<le> 5 * 10 ^ 100"
  shows "\<exists>mid. mid_price bid ask = Inr mid"
proof -
  have "\<bar>bid + ask\<bar> \<le> 10 * 10 ^ 100" using assms by linarith
  then have "\<bar>bid + ask\<bar> < pow10 Emax" using big_below_Emax by simp
  from dec_fix_total [OF this] obtain s where
    s: "dec_fix (bid + ask) = Inr s" "\<bar>s\<bar> \<le> 2 * \<bar>bid + ask\<bar> + 1" by blast
  have "\<bar>s / 2\<bar> \<le> 11 * 10 ^ 100" using s(2) \<open>\<bar>bid + ask\<bar> \<le> 10 * 10 ^ 100\<close> by simp
  then have "\<bar>s / 2\<bar> < pow10 Emax" using big_below_Emax by simp
  from dec_fix_total [OF this] obtain mid where "dec_fix (s / 2) = Inr mid" by blast
  with s(1) show ?thesis by (simp add: mid_price_def dec_add_def)
qed

lemma spread_side_returns:
  assumes "\<bar>a\<bar> \<le> 10 ^ 100" "\<bar>b\<bar> \<le> 10 ^ 100"
  shows "\<exists>r. dec_sub a b = Inr r \<and> \<bar>r\<bar> \<le> 5 * 10 ^ 100"
proof -
  have le: "\<bar>a - b\<bar> \<le> 2 * 10 ^ 100" using assms by linarith
  then have "\<bar>a - b\<bar> < pow10 Emax" using big_below_Emax by simp
  from dec_fix_total [OF this] obtain r where
    "dec_fix (a - b) = Inr r" "\<bar>r\<bar> \<le> 2 * \<bar>a - b\<bar> + 1" by blast
  with le show ?thesis by (auto simp: dec_sub_def)
qed

text \<open>The values of the examples pass through the context unchanged.\<close>

lemma dec_fix_examples:
  "dec_fix 1 = Inr 1"
  "dec_fix 2 = Inr 2"
  "dec_fix (11 / 10) = Inr (11 / 10)"
  "dec_fix (11 / 5) = Inr (11 / 5)"
  "dec_fix (19 / 10) = Inr (19 / 10)"
  "dec_fix (9 / 4) = Inr (9 / 4)"
  "dec_fix (21 / 5) = Inr (21 / 5)"
  "dec_fix (21 / 10) = Inr (21 / 10)"
  "dec_fix (21 / 20) = Inr (21 / 20)"
  "dec_fix (83 / 20) = Inr (83 / 20)"
  "dec_fix (83 / 40) = Inr (83 / 40)"
  by code_simp+

lemma limit_price_examples:
  "limit_price Empty (83 / 40) = Inr (52 / 25)"
  "limit_price Empty (21 / 20) = Inr (21 / 20)"
  by code_simp+

lemmas dec_eval = dec_add_def dec_sub_def mid_price_def dec_sum_def dec_fix_examples

lemma fits28_examples:
  "fits28 (19 / 10)" "fits28 (9 / 4)" "fits28 (83 / 20)" "fits28 (83 / 40)"
proof -
  have "(19 / 10 :: rat) = of_int 19 * pow10 (- 1)" "(9 / 4 :: rat) = of_int 225 * pow10 (- 2)"
    "(83 / 20 :: rat) = of_int 415 * pow10 (- 2)" "(83 / 40 :: rat) = of_int 2075 * pow10 (- 3)"
    by (simp_all add: pow10_def)
  moreover have "\<bar>19::int\<bar> < 10 ^ 28" "\<bar>225::int\<bar> < 10 ^ 28" "\<bar>415::int\<bar> < 10 ^ 28"
    "\<bar>2075::int\<bar> < 10 ^ 28" by simp_all
  moreover have "Etiny \<le> - 1" "Etiny \<le> - 2" "Etiny \<le> - 3"
    by (simp_all add: Etiny_def prec_def)
  ultimately show "fits28 (19 / 10)" "fits28 (9 / 4)" "fits28 (83 / 20)" "fits28 (83 / 40)"
    unfolding fits28_def by blast+
qed


section \<open>Parameter checks: what is rejected\<close>

text \<open>
  The checks of \<^verbatim>\<open>call\<close> and \<^verbatim>\<open>put\<close> reject both-given, neither-given
  and an out-of-range delta; the check of \<^verbatim>\<open>strangle\<close> rejects a delta given
  together with a strike and an out-of-range delta.
\<close>

lemma call_check_rejects:
  "(given strike_opt \<and> given delta_opt) \<or> (\<not> given strike_opt \<and> \<not> given delta_opt)
     \<or> delta_too_high delta_opt
   \<Longrightarrow> \<exists>msg. call_check strike_opt delta_opt = Rejected msg"
  by (cases delta_opt; cases strike_opt)
     (auto simp: call_check_def given_def falsy_def delta_too_high_def)

lemma put_check_rejects:
  "(given strike_opt \<and> given delta_opt) \<or> (\<not> given strike_opt \<and> \<not> given delta_opt)
     \<or> delta_too_high delta_opt
   \<Longrightarrow> \<exists>msg. put_check strike_opt delta_opt = Rejected msg"
  by (cases delta_opt; cases strike_opt)
     (auto simp: put_check_def given_def falsy_def delta_too_high_def)

lemma strangle_check_rejects:
  "((given call_opt \<or> given put_opt) \<and> given delta_opt) \<or> delta_too_high delta_opt
   \<Longrightarrow> \<exists>msg. strangle_check call_opt put_opt delta_opt = Rejected msg"
  by (auto simp: strangle_check_def)

text \<open>
  The second branch of the strangle's chain repeats the condition of the first, so its
  message is never printed.
\<close>

lemma strangle_check_second_branch_dead:
  "strangle_check call_opt put_opt delta_opt
     \<noteq> Rejected ''Please specify either delta, or strikes for both options.''"
  by (simp add: strangle_check_def)

text \<open>
  Claim C3. Every command is to fail with a parameter error, before a feed subscription
  exists, when both strike and delta are given, when neither is given, or when the delta
  is beyond 99 in absolute value; the strangle is to reject a delta given with a strike
  and also the case of neither a delta nor both strikes. The strangle does not reject
  that last case: with no delta and no strike, or with one strike only, its check falls
  through and the command goes on to the session, the chain and the streamer.
\<close>

theorem strangle_neither_proceeds:
  "strangle_check None None None = Proceeds
   \<and> strangle_check (Some 450) None None = Proceeds
   \<and> strangle_check None (Some 400) None = Proceeds"
  by (simp add: strangle_check_def given_def delta_too_high_def)

section \<open>Selection over no readings\<close>





section \<open>The displayed prices do not depend on the direction\<close>

text \<open>
  Whether building the legs fails, and with which error, does not depend on the sign of
  the quantity.
\<close>

lemma legs_sign_call:
  "(case call_legs sdk q width strikes strk of Inl e \<Rightarrow> Some e | Inr _ \<Rightarrow> None) =
   (case call_legs sdk (- q) width strikes strk of Inl e \<Rightarrow> Some e | Inr _ \<Rightarrow> None)"
  by (simp add: call_legs_def call_spread_legs_def Let_def split: option.splits list.splits)

lemma legs_sign_put:
  "(case put_legs sdk q width strikes strk of Inl e \<Rightarrow> Some e | Inr _ \<Rightarrow> None) =
   (case put_legs sdk (- q) width strikes strk of Inl e \<Rightarrow> Some e | Inr _ \<Rightarrow> None)"
  by (simp add: put_legs_def put_spread_legs_def Let_def split: option.splits list.splits)

lemma legs_sign_strangle:
  "(case strangle_legs sdk q width strikes ps cs of Inl e \<Rightarrow> Some e | Inr _ \<Rightarrow> None) =
   (case strangle_legs sdk (- q) width strikes ps cs of Inl e \<Rightarrow> Some e | Inr _ \<Rightarrow> None)"
  by (simp add: strangle_legs_def Let_def split: option.splits list.splits)

lemma shown_call_body:
  "shown (call_body sdk q width gtc strikes strk selected feed answer) =
   (case call_quote width strikes strk selected feed of Inl e \<Rightarrow> Inl e
    | Inr t \<Rightarrow>
      (case limit_price answer (snd (snd t)) of Inl e \<Rightarrow> Inl e
       | Inr prc \<Rightarrow>
          (case (case call_legs sdk q width strikes strk of Inl e \<Rightarrow> Some e | Inr _ \<Rightarrow> None) of
             Some e \<Rightarrow> Inl e | None \<Rightarrow> Inr (fst t, fst (snd t)))))"
  by (auto simp: shown_def call_body_def split: sum.splits prod.splits)

lemma shown_put_body:
  "shown (put_body sdk q width gtc strikes strk selected feed answer) =
   (case put_quote width strikes strk selected feed of Inl e \<Rightarrow> Inl e
    | Inr t \<Rightarrow>
      (case limit_price answer (snd (snd t)) of Inl e \<Rightarrow> Inl e
       | Inr prc \<Rightarrow>
          (case (case put_legs sdk q width strikes strk of Inl e \<Rightarrow> Some e | Inr _ \<Rightarrow> None) of
             Some e \<Rightarrow> Inl e | None \<Rightarrow> Inr (fst t, fst (snd t)))))"
  by (auto simp: shown_def put_body_def split: sum.splits prod.splits)

lemma shown_strangle_body:
  "shown (strangle_body sdk q width gtc strikes ps cs feed answer) =
   (case strangle_quote width strikes ps cs feed of Inl e \<Rightarrow> Inl e
    | Inr t \<Rightarrow>
      (case limit_price answer (snd (snd t)) of Inl e \<Rightarrow> Inl e
       | Inr prc \<Rightarrow>
          (case (case strangle_legs sdk q width strikes ps cs of Inl e \<Rightarrow> Some e | Inr _ \<Rightarrow> None) of
             Some e \<Rightarrow> Inl e | None \<Rightarrow> Inr (fst t, fst (snd t)))))"
  by (auto simp: shown_def strangle_body_def split: sum.splits prod.splits)

text \<open>
  Claim C4, as the code has it. The bid and the ask that a command computes and displays
  are the same for a quantity and for its negation: the pricing blocks of
  \<^verbatim>\<open>call\<close>, \<^verbatim>\<open>put\<close> and \<^verbatim>\<open>strangle\<close> never read the quantity, so
  reversing the strategy leaves the pair \<^verbatim>\<open>(bid, ask)\<close> unchanged instead of
  negating and swapping it.
\<close>

theorem pricing_ignores_direction:
  "shown (call_body sdk q width gtc strikes strk selected feed answer)
     = shown (call_body sdk (- q) width gtc strikes strk selected feed answer)
   \<and> shown (put_body sdk q width gtc strikes strk selected feed answer)
     = shown (put_body sdk (- q) width gtc strikes strk selected feed answer)
   \<and> shown (strangle_body sdk q width gtc strikes ps cs feed answer)
     = shown (strangle_body sdk (- q) width gtc strikes ps cs feed answer)"
  unfolding shown_call_body shown_put_body shown_strangle_body
    legs_sign_call [of sdk q width strikes strk] legs_sign_put [of sdk q width strikes strk]
    legs_sign_strangle [of sdk q width strikes ps cs]
  by (intro conjI refl)

text \<open>
  One call sold (quantity \<open>-1\<close>) with the quote (bid 1.00, ask 1.10) is priced
  (1.00, 1.10), not (-1.10, -1.00).
\<close>

theorem sold_leg_counterexample:
  "shown (call_body
      \<lparr>get_option = (\<lambda>_. \<lparr>symbol = ''XYZ C100'', option_strike = 100\<rparr>),
       get_options = (\<lambda>_. [])\<rparr>
      (- 1) None False
      [\<lparr>strike_price = 100, call = ''XYZ C100'', put = ''XYZ P100'',
        call_streamer_symbol = ''.XYZC100'', put_streamer_symbol = ''.XYZP100''\<rparr>]
      100 (Some \<lparr>eventSymbol = ''.XYZC100'', delta = 1 / 2\<rparr>)
      [\<lparr>eventSymbol = ''.XYZC100'', bidPrice = 1, askPrice = 11 / 10\<rparr>] Empty)
   = Inr (1, 11 / 10)
   \<and> (1 :: rat, 11 / 10 :: rat) \<noteq> (- (11 / 10), - 1)"
  by (simp add: shown_def call_body_def call_quote_def single_quote_def limit_price_examples
      call_legs_def call_order_def dec_eval)

section \<open>Three concrete runs\<close>

text \<open>
  Five call spreads 100/110 sold at the default price: the mid 2.075 is displayed
  unrounded and the limit price is 2.08.
\<close>

lemma xyz_call_run:
  "call_body xyz_resolver (- 5) (Some 10) False [xyz_100, xyz_110] 100
      (Some \<lparr>eventSymbol = ''.XYZC100'', delta = 1 / 2\<rparr>) xyz_quotes Empty =
   Inr ((19 / 10, 9 / 4, 83 / 40),
        \<lparr>time_in_force = DAY, order_type = LIMIT,
         legs = [\<lparr>leg_symbol = ''XYZ C100'', quantity = 5, action = SELL_TO_OPEN\<rparr>,
                 \<lparr>leg_symbol = ''XYZ C110'', quantity = 5, action = BUY_TO_OPEN\<rparr>],
         price = 52 / 25, price_effect = CREDIT\<rparr>)"
  by (simp add: xyz_defs call_body_def call_quote_def call_spread_quote_def listen_quotes_def
      limit_price_examples call_legs_def call_spread_legs_def dec_eval
      sort_by_strike_def build_leg_def call_order_def Let_def)

text \<open>Five put spreads 110/100 bought, good till cancelled, at the entered price 2.\<close>

lemma xyz_put_run:
  "put_body xyz_resolver 5 (Some 10) True [xyz_100, xyz_110] 110
      (Some \<lparr>eventSymbol = ''.XYZP110'', delta = - 1 / 2\<rparr>) (drop 2 xyz_quotes) (Parsed 2) =
   Inr ((19 / 10, 9 / 4, 83 / 40),
        \<lparr>time_in_force = GTC, order_type = LIMIT,
         legs = [\<lparr>leg_symbol = ''XYZ P110'', quantity = 5, action = BUY_TO_OPEN\<rparr>,
                 \<lparr>leg_symbol = ''XYZ P100'', quantity = 5, action = SELL_TO_OPEN\<rparr>],
         price = 2, price_effect = DEBIT\<rparr>)"
  by (simp add: xyz_defs put_body_def put_quote_def put_spread_quote_def listen_quotes_def
      limit_price_Parsed put_legs_def put_spread_legs_def dec_eval
      sort_by_strike_reverse_def build_leg_def put_order_def Let_def)

text \<open>One strangle 100/110 sold at the entered price 2.\<close>

lemma xyz_strangle_run:
  "strangle_body xyz_resolver (- 1) None False [xyz_100, xyz_110] xyz_100 xyz_110
      [xyz_quotes ! 2, xyz_quotes ! 0] (Parsed 2) =
   Inr ((2, 11 / 5, 21 / 10),
        \<lparr>time_in_force = DAY, order_type = LIMIT,
         legs = [\<lparr>leg_symbol = ''XYZ P100'', quantity = 1, action = SELL_TO_OPEN\<rparr>,
                 \<lparr>leg_symbol = ''XYZ C110'', quantity = 1, action = SELL_TO_OPEN\<rparr>],
         price = 2, price_effect = CREDIT\<rparr>)"
  by (simp add: xyz_defs strangle_body_def strangle_quote_def strangle_plain_quote_def
      listen_quotes_def limit_price_Parsed strangle_legs_def dec_eval
      sort_by_strike_def build_leg_def strangle_order_def Let_def)

section \<open>The fields of every order\<close>

lemma call_body_fields:
  "call_body sdk q width gtc strikes strk selected feed answer = Inr (pr, ord)
   \<Longrightarrow> price_effect ord = (if q < 0 then CREDIT else DEBIT)
       \<and> time_in_force ord = (if gtc then GTC else DAY) \<and> order_type ord = LIMIT"
  by (auto simp: call_body_def call_order_def split: sum.splits prod.splits)

lemma put_body_fields:
  "put_body sdk q width gtc strikes strk selected feed answer = Inr (pr, ord)
   \<Longrightarrow> price_effect ord = (if q < 0 then CREDIT else DEBIT)
       \<and> time_in_force ord = (if gtc then GTC else DAY) \<and> order_type ord = LIMIT"
  by (auto simp: put_body_def put_order_def split: sum.splits prod.splits)

lemma strangle_body_fields:
  "strangle_body sdk q width gtc strikes ps cs feed answer = Inr (pr, ord)
   \<Longrightarrow> price_effect ord = (if q < 0 then CREDIT else DEBIT)
       \<and> time_in_force ord = (if gtc then GTC else DAY) \<and> order_type ord = LIMIT"
  by (auto simp: strangle_body_def strangle_order_def split: sum.splits prod.splits)

text \<open>
  Claim C10. Every order that \<^verbatim>\<open>call\<close>, \<^verbatim>\<open>put\<close> or
  \<^verbatim>\<open>strangle\<close> constructs has price effect CREDIT if the quantity is negative
  and DEBIT otherwise, time in force GTC if the gtc flag is set and DAY otherwise, and
  order type LIMIT.
\<close>

theorem order_field_invariant:
  "(call_body sdk q width gtc strikes strk selected feed answer = Inr (pr, ord)
      \<longrightarrow> price_effect ord = (if q < 0 then CREDIT else DEBIT)
         \<and> time_in_force ord = (if gtc then GTC else DAY) \<and> order_type ord = LIMIT)
   \<and> (put_body sdk q width gtc strikes strk selected feed answer = Inr (pr, ord)
      \<longrightarrow> price_effect ord = (if q < 0 then CREDIT else DEBIT)
         \<and> time_in_force ord = (if gtc then GTC else DAY) \<and> order_type ord = LIMIT)
   \<and> (strangle_body sdk q width gtc strikes ps cs feed answer = Inr (pr, ord)
      \<longrightarrow> price_effect ord = (if q < 0 then CREDIT else DEBIT)
         \<and> time_in_force ord = (if gtc then GTC else DAY) \<and> order_type ord = LIMIT)"
  using call_body_fields [of sdk q width gtc strikes strk selected feed answer pr ord]
    put_body_fields [of sdk q width gtc strikes strk selected feed answer pr ord]
    strangle_body_fields [of sdk q width gtc strikes ps cs feed answer pr ord]
  by blast

theorem order_field_invariant_witness:
  "(\<exists>ord. call_body xyz_resolver (- 5) (Some 10) False [xyz_100, xyz_110] 100
        (Some \<lparr>eventSymbol = ''.XYZC100'', delta = 1 / 2\<rparr>) xyz_quotes Empty
          = Inr ((19 / 10, 9 / 4, 83 / 40), ord)
      \<and> price_effect ord = CREDIT \<and> time_in_force ord = DAY \<and> order_type ord = LIMIT)
   \<and> (\<exists>ord. put_body xyz_resolver 5 (Some 10) True [xyz_100, xyz_110] 110
        (Some \<lparr>eventSymbol = ''.XYZP110'', delta = - 1 / 2\<rparr>) (drop 2 xyz_quotes) (Parsed 2)
          = Inr ((19 / 10, 9 / 4, 83 / 40), ord)
      \<and> price_effect ord = DEBIT \<and> time_in_force ord = GTC \<and> order_type ord = LIMIT)
   \<and> (\<exists>ord. strangle_body xyz_resolver (- 1) None False [xyz_100, xyz_110] xyz_100 xyz_110
        [xyz_quotes ! 2, xyz_quotes ! 0] (Parsed 2)
          = Inr ((2, 11 / 5, 21 / 10), ord)
      \<and> price_effect ord = CREDIT \<and> time_in_force ord = DAY \<and> order_type ord = LIMIT)"
proof (intro conjI)
  from order_field_invariant [THEN conjunct1, rule_format, OF xyz_call_run] xyz_call_run
  show "\<exists>ord. call_body xyz_resolver (- 5) (Some 10) False [xyz_100, xyz_110] 100
        (Some \<lparr>eventSymbol = ''.XYZC100'', delta = 1 / 2\<rparr>) xyz_quotes Empty
          = Inr ((19 / 10, 9 / 4, 83 / 40), ord)
      \<and> price_effect ord = CREDIT \<and> time_in_force ord = DAY \<and> order_type ord = LIMIT"
    by simp
next
  from order_field_invariant [THEN conjunct2, THEN conjunct1, rule_format, OF xyz_put_run]
    xyz_put_run
  show "\<exists>ord. put_body xyz_resolver 5 (Some 10) True [xyz_100, xyz_110] 110
        (Some \<lparr>eventSymbol = ''.XYZP110'', delta = - 1 / 2\<rparr>) (drop 2 xyz_quotes) (Parsed 2)
          = Inr ((19 / 10, 9 / 4, 83 / 40), ord)
      \<and> price_effect ord = DEBIT \<and> time_in_force ord = GTC \<and> order_type ord = LIMIT"
    by simp
next
  from order_field_invariant [THEN conjunct2, THEN conjunct2, rule_format, OF xyz_strangle_run]
    xyz_strangle_run
  show "\<exists>ord. strangle_body xyz_resolver (- 1) None False [xyz_100, xyz_110] xyz_100 xyz_110
        [xyz_quotes ! 2, xyz_quotes ! 0] (Parsed 2)
          = Inr ((2, 11 / 5, 21 / 10), ord)
      \<and> price_effect ord = CREDIT \<and> time_in_force ord = DAY \<and> order_type ord = LIMIT"
    by simp
qed

section \<open>Pricing a vertical spread\<close>

lemma mid_price_rounded:
  "mid_price bid ask = Inr mid \<Longrightarrow> \<exists>s. rounded28 (bid + ask) s \<and> rounded28 (s / 2) mid"
  by (auto simp: mid_price_def dec_add_def split: sum.splits dest: dec_fix_rounded28)

lemma mid_price_exact:
  assumes m: "mid_price bid ask = Inr mid"
    and f: "fits28 (bid + ask)" "fits28 ((bid + ask) / 2)"
  shows "mid = (bid + ask) / 2"
proof -
  from m obtain s where s: "dec_fix (bid + ask) = Inr s" "dec_fix (s / 2) = Inr mid"
    by (auto simp: mid_price_def dec_add_def split: sum.splits)
  from dec_fix_exact [OF s(1) f(1)] have "s = bid + ask" .
  with s(2) have "dec_fix ((bid + ask) / 2) = Inr mid" by simp
  from dec_fix_exact [OF this f(2)] show ?thesis .
qed

lemma call_spread_quote_Inr:
  "call_spread_quote w strikes strk selected feed = Inr (bid, ask, mid) \<Longrightarrow>
   \<exists>sp sel qd qs qh.
      find (\<lambda>s. strike_price s = strk + of_int w) strikes = Some sp \<and> selected = Some sel
      \<and> listen_quotes 2 feed None = Some qd
      \<and> map_of qd (eventSymbol sel) = Some qs \<and> map_of qd (call_streamer_symbol sp) = Some qh
      \<and> dec_fix (bidPrice qs - askPrice qh) = Inr bid
      \<and> dec_fix (askPrice qs - bidPrice qh) = Inr ask
      \<and> mid_price bid ask = Inr mid"
  by (auto simp: call_spread_quote_def dec_sub_def split: option.splits sum.splits)

lemma put_spread_quote_Inr:
  "put_spread_quote w strikes strk selected feed = Inr (bid, ask, mid) \<Longrightarrow>
   \<exists>sp sel qd qs qh.
      find (\<lambda>s. strike_price s = strk - of_int w) strikes = Some sp \<and> selected = Some sel
      \<and> listen_quotes 2 feed None = Some qd
      \<and> map_of qd (eventSymbol sel) = Some qs \<and> map_of qd (put_streamer_symbol sp) = Some qh
      \<and> dec_fix (bidPrice qs - askPrice qh) = Inr bid
      \<and> dec_fix (askPrice qs - bidPrice qh) = Inr ask
      \<and> mid_price bid ask = Inr mid"
  by (auto simp: put_spread_quote_def dec_sub_def split: option.splits sum.splits)

lemma call_body_parts:
  "call_body sdk q width gtc strikes strk selected feed answer = Inr ((bid, ask, mid), ord) \<Longrightarrow>
   call_quote width strikes strk selected feed = Inr (bid, ask, mid)
   \<and> limit_price answer mid = Inr (price ord)"
  by (auto simp: call_body_def call_order_def split: sum.splits prod.splits)

lemma put_body_parts:
  "put_body sdk q width gtc strikes strk selected feed answer = Inr ((bid, ask, mid), ord) \<Longrightarrow>
   put_quote width strikes strk selected feed = Inr (bid, ask, mid)
   \<and> limit_price answer mid = Inr (price ord)"
  by (auto simp: put_body_def put_order_def split: sum.splits prod.splits)

lemma call_spread_priced:
  assumes b: "call_body sdk q (Some w) gtc strikes strk selected feed answer
               = Inr ((bid, ask, mid), ord)" and w: "w \<noteq> 0"
  shows "(\<exists>sp sel qd qs qh.
          find (\<lambda>s. strike_price s = strk + of_int w) strikes = Some sp \<and> selected = Some sel
          \<and> listen_quotes 2 feed None = Some qd
          \<and> map_of qd (eventSymbol sel) = Some qs
          \<and> map_of qd (call_streamer_symbol sp) = Some qh
          \<and> rounded28 (bidPrice qs - askPrice qh) bid
          \<and> rounded28 (askPrice qs - bidPrice qh) ask
          \<and> (fits28 (bidPrice qs - askPrice qh) \<longrightarrow> bid = bidPrice qs - askPrice qh)
          \<and> (fits28 (askPrice qs - bidPrice qh) \<longrightarrow> ask = askPrice qs - bidPrice qh))
      \<and> (\<exists>s. rounded28 (bid + ask) s \<and> rounded28 (s / 2) mid)
      \<and> (fits28 (bid + ask) \<and> fits28 ((bid + ask) / 2) \<longrightarrow> mid = (bid + ask) / 2)
      \<and> (answer = Empty \<longrightarrow> nearest_even (1 / 100) mid (price ord))
      \<and> (\<forall>v. answer = Parsed v \<longrightarrow> price ord = v)"
proof -
  from call_body_parts [OF b] w
  have cq: "call_spread_quote w strikes strk selected feed = Inr (bid, ask, mid)"
    and lp: "limit_price answer mid = Inr (price ord)"
    by (simp_all add: call_quote_def)
  from call_spread_quote_Inr [OF cq] obtain sp sel qd qs qh where
    l: "find (\<lambda>s. strike_price s = strk + of_int w) strikes = Some sp" "selected = Some sel"
      "listen_quotes 2 feed None = Some qd" "map_of qd (eventSymbol sel) = Some qs"
      "map_of qd (call_streamer_symbol sp) = Some qh"
    and a: "dec_fix (bidPrice qs - askPrice qh) = Inr bid"
      "dec_fix (askPrice qs - bidPrice qh) = Inr ask"
    and m: "mid_price bid ask = Inr mid"
    by blast
  have "rounded28 (bidPrice qs - askPrice qh) bid" "rounded28 (askPrice qs - bidPrice qh) ask"
    using a by (simp_all add: dec_fix_rounded28)
  moreover have "fits28 (bidPrice qs - askPrice qh) \<longrightarrow> bid = bidPrice qs - askPrice qh"
    "fits28 (askPrice qs - bidPrice qh) \<longrightarrow> ask = askPrice qs - bidPrice qh"
    using a by (simp_all add: dec_fix_exact)
  ultimately have first: "\<exists>sp sel qd qs qh.
          find (\<lambda>s. strike_price s = strk + of_int w) strikes = Some sp \<and> selected = Some sel
          \<and> listen_quotes 2 feed None = Some qd
          \<and> map_of qd (eventSymbol sel) = Some qs
          \<and> map_of qd (call_streamer_symbol sp) = Some qh
          \<and> rounded28 (bidPrice qs - askPrice qh) bid
          \<and> rounded28 (askPrice qs - bidPrice qh) ask
          \<and> (fits28 (bidPrice qs - askPrice qh) \<longrightarrow> bid = bidPrice qs - askPrice qh)
          \<and> (fits28 (askPrice qs - bidPrice qh) \<longrightarrow> ask = askPrice qs - bidPrice qh)"
    using l by blast
  from first mid_price_rounded [OF m] mid_price_exact [OF m] limit_price_cases [OF lp]
  show ?thesis by blast
qed

lemma put_spread_priced:
  assumes b: "put_body sdk q (Some w) gtc strikes strk selected feed answer
               = Inr ((bid, ask, mid), ord)" and w: "w \<noteq> 0"
  shows "(\<exists>sp sel qd qs qh.
          find (\<lambda>s. strike_price s = strk - of_int w) strikes = Some sp \<and> selected = Some sel
          \<and> listen_quotes 2 feed None = Some qd
          \<and> map_of qd (eventSymbol sel) = Some qs
          \<and> map_of qd (put_streamer_symbol sp) = Some qh
          \<and> rounded28 (bidPrice qs - askPrice qh) bid
          \<and> rounded28 (askPrice qs - bidPrice qh) ask
          \<and> (fits28 (bidPrice qs - askPrice qh) \<longrightarrow> bid = bidPrice qs - askPrice qh)
          \<and> (fits28 (askPrice qs - bidPrice qh) \<longrightarrow> ask = askPrice qs - bidPrice qh))
      \<and> (\<exists>s. rounded28 (bid + ask) s \<and> rounded28 (s / 2) mid)
      \<and> (fits28 (bid + ask) \<and> fits28 ((bid + ask) / 2) \<longrightarrow> mid = (bid + ask) / 2)
      \<and> (answer = Empty \<longrightarrow> nearest_even (1 / 100) mid (price ord))
      \<and> (\<forall>v. answer = Parsed v \<longrightarrow> price ord = v)"
proof -
  from put_body_parts [OF b] w
  have cq: "put_spread_quote w strikes strk selected feed = Inr (bid, ask, mid)"
    and lp: "limit_price answer mid = Inr (price ord)"
    by (simp_all add: put_quote_def)
  from put_spread_quote_Inr [OF cq] obtain sp sel qd qs qh where
    l: "find (\<lambda>s. strike_price s = strk - of_int w) strikes = Some sp" "selected = Some sel"
      "listen_quotes 2 feed None = Some qd" "map_of qd (eventSymbol sel) = Some qs"
      "map_of qd (put_streamer_symbol sp) = Some qh"
    and a: "dec_fix (bidPrice qs - askPrice qh) = Inr bid"
      "dec_fix (askPrice qs - bidPrice qh) = Inr ask"
    and m: "mid_price bid ask = Inr mid"
    by blast
  have "rounded28 (bidPrice qs - askPrice qh) bid" "rounded28 (askPrice qs - bidPrice qh) ask"
    using a by (simp_all add: dec_fix_rounded28)
  moreover have "fits28 (bidPrice qs - askPrice qh) \<longrightarrow> bid = bidPrice qs - askPrice qh"
    "fits28 (askPrice qs - bidPrice qh) \<longrightarrow> ask = askPrice qs - bidPrice qh"
    using a by (simp_all add: dec_fix_exact)
  ultimately have first: "\<exists>sp sel qd qs qh.
          find (\<lambda>s. strike_price s = strk - of_int w) strikes = Some sp \<and> selected = Some sel
          \<and> listen_quotes 2 feed None = Some qd
          \<and> map_of qd (eventSymbol sel) = Some qs
          \<and> map_of qd (put_streamer_symbol sp) = Some qh
          \<and> rounded28 (bidPrice qs - askPrice qh) bid
          \<and> rounded28 (askPrice qs - bidPrice qh) ask
          \<and> (fits28 (bidPrice qs - askPrice qh) \<longrightarrow> bid = bidPrice qs - askPrice qh)
          \<and> (fits28 (askPrice qs - bidPrice qh) \<longrightarrow> ask = askPrice qs - bidPrice qh)"
    using l by blast
  from first mid_price_rounded [OF m] mid_price_exact [OF m] limit_price_cases [OF lp]
  show ?thesis by blast
qed

lemma call_spread_quote_returns:
  assumes "find (\<lambda>s. strike_price s = strk + of_int w) strikes = Some sp"
    and "listen_quotes 2 feed None = Some qd"
    and "map_of qd (eventSymbol sel) = Some qs" "map_of qd (call_streamer_symbol sp) = Some qh"
    and "\<bar>bidPrice qs\<bar> \<le> 10 ^ 100" "\<bar>askPrice qs\<bar> \<le> 10 ^ 100"
      "\<bar>bidPrice qh\<bar> \<le> 10 ^ 100" "\<bar>askPrice qh\<bar> \<le> 10 ^ 100"
  shows "\<exists>bid ask mid. call_spread_quote w strikes strk (Some sel) feed = Inr (bid, ask, mid)"
proof -
  from spread_side_returns [OF assms(5) assms(8)] obtain bid where
    bid: "dec_sub (bidPrice qs) (askPrice qh) = Inr bid" "\<bar>bid\<bar> \<le> 5 * 10 ^ 100" by blast
  from spread_side_returns [OF assms(6) assms(7)] obtain ask where
    ask: "dec_sub (askPrice qs) (bidPrice qh) = Inr ask" "\<bar>ask\<bar> \<le> 5 * 10 ^ 100" by blast
  from mid_price_returns [OF bid(2) ask(2)] obtain mid where "mid_price bid ask = Inr mid" by blast
  with assms(1-4) bid(1) ask(1) show ?thesis by (simp add: call_spread_quote_def)
qed

lemma put_spread_quote_returns:
  assumes "find (\<lambda>s. strike_price s = strk - of_int w) strikes = Some sp"
    and "listen_quotes 2 feed None = Some qd"
    and "map_of qd (eventSymbol sel) = Some qs" "map_of qd (put_streamer_symbol sp) = Some qh"
    and "\<bar>bidPrice qs\<bar> \<le> 10 ^ 100" "\<bar>askPrice qs\<bar> \<le> 10 ^ 100"
      "\<bar>bidPrice qh\<bar> \<le> 10 ^ 100" "\<bar>askPrice qh\<bar> \<le> 10 ^ 100"
  shows "\<exists>bid ask mid. put_spread_quote w strikes strk (Some sel) feed = Inr (bid, ask, mid)"
proof -
  from spread_side_returns [OF assms(5) assms(8)] obtain bid where
    bid: "dec_sub (bidPrice qs) (askPrice qh) = Inr bid" "\<bar>bid\<bar> \<le> 5 * 10 ^ 100" by blast
  from spread_side_returns [OF assms(6) assms(7)] obtain ask where
    ask: "dec_sub (askPrice qs) (bidPrice qh) = Inr ask" "\<bar>ask\<bar> \<le> 5 * 10 ^ 100" by blast
  from mid_price_returns [OF bid(2) ask(2)] obtain mid where "mid_price bid ask = Inr mid" by blast
  with assms(1-4) bid(1) ask(1) show ?thesis by (simp add: put_spread_quote_def)
qed


text \<open>
  On the strike path \<^verbatim>\<open>selected\<close> is never assigned, so neither pricing block
  returns a price there.
\<close>

lemma strike_path_no_price:
  "\<exists>e. call_quote width strikes strk None feed = Inl e"
  "\<exists>e. put_quote width strikes strk None feed = Inl e"
  by (auto simp: call_quote_def put_quote_def single_quote_def call_spread_quote_def
      put_spread_quote_def split: option.splits)

text \<open>
  Claim C6, as the code has it. Whenever a call or put command prices a two-leg vertical
  spread whose strike was selected by delta, the bid is the selected leg's bid minus the
  hedge leg's ask, the ask is the selected leg's ask minus the hedge leg's bid, and the
  mid is half their sum, each operation computed in the decimal context: its exact
  result rounded half to even at the 28th significant digit, hence the exact result
  whenever that has at most 28 significant digits. The limit price is the mid rounded
  half to even to two decimals only when the operator enters nothing, and is the entered
  price otherwise. With quotes of at most \<open>10 ^ 100\<close> in absolute value the pricing
  block does return a price.
\<close>

theorem vertical_spread_pricing:
  "(call_body sdk q (Some w) gtc strikes strk selected feed answer = Inr ((bid, ask, mid), ord)
      \<and> w \<noteq> 0 \<longrightarrow>
      (\<exists>sp sel qd qs qh.
          find (\<lambda>s. strike_price s = strk + of_int w) strikes = Some sp \<and> selected = Some sel
          \<and> listen_quotes 2 feed None = Some qd
          \<and> map_of qd (eventSymbol sel) = Some qs
          \<and> map_of qd (call_streamer_symbol sp) = Some qh
          \<and> rounded28 (bidPrice qs - askPrice qh) bid
          \<and> rounded28 (askPrice qs - bidPrice qh) ask
          \<and> (fits28 (bidPrice qs - askPrice qh) \<longrightarrow> bid = bidPrice qs - askPrice qh)
          \<and> (fits28 (askPrice qs - bidPrice qh) \<longrightarrow> ask = askPrice qs - bidPrice qh))
      \<and> (\<exists>s. rounded28 (bid + ask) s \<and> rounded28 (s / 2) mid)
      \<and> (fits28 (bid + ask) \<and> fits28 ((bid + ask) / 2) \<longrightarrow> mid = (bid + ask) / 2)
      \<and> (answer = Empty \<longrightarrow> nearest_even (1 / 100) mid (price ord))
      \<and> (\<forall>v. answer = Parsed v \<longrightarrow> price ord = v))
   \<and> (put_body sdk q (Some w) gtc strikes strk selected feed answer = Inr ((bid, ask, mid), ord)
      \<and> w \<noteq> 0 \<longrightarrow>
      (\<exists>sp sel qd qs qh.
          find (\<lambda>s. strike_price s = strk - of_int w) strikes = Some sp \<and> selected = Some sel
          \<and> listen_quotes 2 feed None = Some qd
          \<and> map_of qd (eventSymbol sel) = Some qs
          \<and> map_of qd (put_streamer_symbol sp) = Some qh
          \<and> rounded28 (bidPrice qs - askPrice qh) bid
          \<and> rounded28 (askPrice qs - bidPrice qh) ask
          \<and> (fits28 (bidPrice qs - askPrice qh) \<longrightarrow> bid = bidPrice qs - askPrice qh)
          \<and> (fits28 (askPrice qs - bidPrice qh) \<longrightarrow> ask = askPrice qs - bidPrice qh))
      \<and> (\<exists>s. rounded28 (bid + ask) s \<and> rounded28 (s / 2) mid)
      \<and> (fits28 (bid + ask) \<and> fits28 ((bid + ask) / 2) \<longrightarrow> mid = (bid + ask) / 2)
      \<and> (answer = Empty \<longrightarrow> nearest_even (1 / 100) mid (price ord))
      \<and> (\<forall>v. answer = Parsed v \<longrightarrow> price ord = v))
   \<and> (w \<noteq> 0 \<and> find (\<lambda>s. strike_price s = strk + of_int w) strikes = Some sp'
      \<and> listen_quotes 2 feed None = Some qd'
      \<and> map_of qd' (eventSymbol sel') = Some qs'
      \<and> map_of qd' (call_streamer_symbol sp') = Some qh'
      \<and> \<bar>bidPrice qs'\<bar> \<le> 10 ^ 100 \<and> \<bar>askPrice qs'\<bar> \<le> 10 ^ 100
      \<and> \<bar>bidPrice qh'\<bar> \<le> 10 ^ 100 \<and> \<bar>askPrice qh'\<bar> \<le> 10 ^ 100
      \<longrightarrow> (\<exists>b a m. call_quote (Some w) strikes strk (Some sel') feed = Inr (b, a, m)))
   \<and> (w \<noteq> 0 \<and> find (\<lambda>s. strike_price s = strk - of_int w) strikes = Some sp'
      \<and> listen_quotes 2 feed None = Some qd'
      \<and> map_of qd' (eventSymbol sel') = Some qs'
      \<and> map_of qd' (put_streamer_symbol sp') = Some qh'
      \<and> \<bar>bidPrice qs'\<bar> \<le> 10 ^ 100 \<and> \<bar>askPrice qs'\<bar> \<le> 10 ^ 100
      \<and> \<bar>bidPrice qh'\<bar> \<le> 10 ^ 100 \<and> \<bar>askPrice qh'\<bar> \<le> 10 ^ 100
      \<longrightarrow> (\<exists>b a m. put_quote (Some w) strikes strk (Some sel') feed = Inr (b, a, m)))"
proof (intro conjI)
  show "call_body sdk q (Some w) gtc strikes strk selected feed answer
          = Inr ((bid, ask, mid), ord) \<and> w \<noteq> 0 \<longrightarrow>
      (\<exists>sp sel qd qs qh.
          find (\<lambda>s. strike_price s = strk + of_int w) strikes = Some sp \<and> selected = Some sel
          \<and> listen_quotes 2 feed None = Some qd
          \<and> map_of qd (eventSymbol sel) = Some qs
          \<and> map_of qd (call_streamer_symbol sp) = Some qh
          \<and> rounded28 (bidPrice qs - askPrice qh) bid
          \<and> rounded28 (askPrice qs - bidPrice qh) ask
          \<and> (fits28 (bidPrice qs - askPrice qh) \<longrightarrow> bid = bidPrice qs - askPrice qh)
          \<and> (fits28 (askPrice qs - bidPrice qh) \<longrightarrow> ask = askPrice qs - bidPrice qh))
      \<and> (\<exists>s. rounded28 (bid + ask) s \<and> rounded28 (s / 2) mid)
      \<and> (fits28 (bid + ask) \<and> fits28 ((bid + ask) / 2) \<longrightarrow> mid = (bid + ask) / 2)
      \<and> (answer = Empty \<longrightarrow> nearest_even (1 / 100) mid (price ord))
      \<and> (\<forall>v. answer = Parsed v \<longrightarrow> price ord = v)"
    by (rule impI, erule conjE, erule (1) call_spread_priced)
  show "put_body sdk q (Some w) gtc strikes strk selected feed answer
          = Inr ((bid, ask, mid), ord) \<and> w \<noteq> 0 \<longrightarrow>
      (\<exists>sp sel qd qs qh.
          find (\<lambda>s. strike_price s = strk - of_int w) strikes = Some sp \<and> selected = Some sel
          \<and> listen_quotes 2 feed None = Some qd
          \<and> map_of qd (eventSymbol sel) = Some qs
          \<and> map_of qd (put_streamer_symbol sp) = Some qh
          \<and> rounded28 (bidPrice qs - askPrice qh) bid
          \<and> rounded28 (askPrice qs - bidPrice qh) ask
          \<and> (fits28 (bidPrice qs - askPrice qh) \<longrightarrow> bid = bidPrice qs - askPrice qh)
          \<and> (fits28 (askPrice qs - bidPrice qh) \<longrightarrow> ask = askPrice qs - bidPrice qh))
      \<and> (\<exists>s. rounded28 (bid + ask) s \<and> rounded28 (s / 2) mid)
      \<and> (fits28 (bid + ask) \<and> fits28 ((bid + ask) / 2) \<longrightarrow> mid = (bid + ask) / 2)
      \<and> (answer = Empty \<longrightarrow> nearest_even (1 / 100) mid (price ord))
      \<and> (\<forall>v. answer = Parsed v \<longrightarrow> price ord = v)"
    by (rule impI, erule conjE, erule (1) put_spread_priced)
  show "w \<noteq> 0 \<and> find (\<lambda>s. strike_price s = strk + of_int w) strikes = Some sp'
      \<and> listen_quotes 2 feed None = Some qd'
      \<and> map_of qd' (eventSymbol sel') = Some qs'
      \<and> map_of qd' (call_streamer_symbol sp') = Some qh'
      \<and> \<bar>bidPrice qs'\<bar> \<le> 10 ^ 100 \<and> \<bar>askPrice qs'\<bar> \<le> 10 ^ 100
      \<and> \<bar>bidPrice qh'\<bar> \<le> 10 ^ 100 \<and> \<bar>askPrice qh'\<bar> \<le> 10 ^ 100
      \<longrightarrow> (\<exists>b a m. call_quote (Some w) strikes strk (Some sel') feed = Inr (b, a, m))"
    using call_spread_quote_returns [of strk w strikes sp' feed qd' sel' qs' qh']
    by (auto simp: call_quote_def)
  show "w \<noteq> 0 \<and> find (\<lambda>s. strike_price s = strk - of_int w) strikes = Some sp'
      \<and> listen_quotes 2 feed None = Some qd'
      \<and> map_of qd' (eventSymbol sel') = Some qs'
      \<and> map_of qd' (put_streamer_symbol sp') = Some qh'
      \<and> \<bar>bidPrice qs'\<bar> \<le> 10 ^ 100 \<and> \<bar>askPrice qs'\<bar> \<le> 10 ^ 100
      \<and> \<bar>bidPrice qh'\<bar> \<le> 10 ^ 100 \<and> \<bar>askPrice qh'\<bar> \<le> 10 ^ 100
      \<longrightarrow> (\<exists>b a m. put_quote (Some w) strikes strk (Some sel') feed = Inr (b, a, m))"
    using put_spread_quote_returns [of strk w strikes sp' feed qd' sel' qs' qh']
    by (auto simp: put_quote_def)
qed

theorem vertical_spread_pricing_witness:
  "(\<exists>ord. call_body xyz_resolver (- 5) (Some 10) False [xyz_100, xyz_110] 100
        (Some \<lparr>eventSymbol = ''.XYZC100'', delta = 1 / 2\<rparr>) xyz_quotes Empty
          = Inr ((3 - 11 / 10, 13 / 4 - 1, 83 / 40), ord)
      \<and> price ord = 52 / 25 \<and> nearest_even (1 / 100) (83 / 40) (52 / 25))
   \<and> fits28 (19 / 10) \<and> fits28 (9 / 4) \<and> fits28 (83 / 20) \<and> fits28 (83 / 40)
   \<and> (83 / 40 :: rat) = (19 / 10 + 9 / 4) / 2
   \<and> (\<exists>ord. put_body xyz_resolver 5 (Some 10) True [xyz_100, xyz_110] 110
        (Some \<lparr>eventSymbol = ''.XYZP110'', delta = - 1 / 2\<rparr>) (drop 2 xyz_quotes) (Parsed 2)
          = Inr ((3 - 11 / 10, 13 / 4 - 1, 83 / 40), ord)
      \<and> price ord = 2)
   \<and> (\<exists>b a m. call_quote (Some 10) [xyz_100, xyz_110] 100
        (Some \<lparr>eventSymbol = ''.XYZC100'', delta = 1 / 2\<rparr>) xyz_quotes = Inr (b, a, m))
   \<and> (\<exists>b a m. put_quote (Some 10) [xyz_100, xyz_110] 110
        (Some \<lparr>eventSymbol = ''.XYZP110'', delta = - 1 / 2\<rparr>) (drop 2 xyz_quotes)
          = Inr (b, a, m))"
proof (intro conjI)
  show "\<exists>b a m. call_quote (Some 10) [xyz_100, xyz_110] 100
        (Some \<lparr>eventSymbol = ''.XYZC100'', delta = 1 / 2\<rparr>) xyz_quotes = Inr (b, a, m)"
    by (rule vertical_spread_pricing [where sp' = xyz_110
            and qs' = "\<lparr>eventSymbol = ''.XYZC100'', bidPrice = 3, askPrice = 13 / 4\<rparr>"
            and qh' = "\<lparr>eventSymbol = ''.XYZC110'', bidPrice = 1, askPrice = 11 / 10\<rparr>"
            and qd' = "[(''.XYZC110'', \<lparr>eventSymbol = ''.XYZC110'', bidPrice = 1,
                           askPrice = 11 / 10\<rparr>),
                        (''.XYZC100'', \<lparr>eventSymbol = ''.XYZC100'', bidPrice = 3,
                           askPrice = 13 / 4\<rparr>)]",
          THEN conjunct2, THEN conjunct2, THEN conjunct1, THEN mp])
       (simp add: xyz_defs listen_quotes_def)
  show "\<exists>b a m. put_quote (Some 10) [xyz_100, xyz_110] 110
        (Some \<lparr>eventSymbol = ''.XYZP110'', delta = - 1 / 2\<rparr>) (drop 2 xyz_quotes)
          = Inr (b, a, m)"
    by (rule vertical_spread_pricing [where sp' = xyz_100
            and qs' = "\<lparr>eventSymbol = ''.XYZP110'', bidPrice = 3, askPrice = 13 / 4\<rparr>"
            and qh' = "\<lparr>eventSymbol = ''.XYZP100'', bidPrice = 1, askPrice = 11 / 10\<rparr>"
            and qd' = "[(''.XYZP100'', \<lparr>eventSymbol = ''.XYZP100'', bidPrice = 1,
                           askPrice = 11 / 10\<rparr>),
                        (''.XYZP110'', \<lparr>eventSymbol = ''.XYZP110'', bidPrice = 3,
                           askPrice = 13 / 4\<rparr>)]",
          THEN conjunct2, THEN conjunct2, THEN conjunct2, THEN mp])
       (simp add: xyz_defs listen_quotes_def)
next
  note c = vertical_spread_pricing [THEN conjunct1, rule_format, OF conjI, OF xyz_call_run]
  have "nearest_even (1 / 100) (83 / 40) (52 / 25)"
    using c by simp
  with xyz_call_run
  show "\<exists>ord. call_body xyz_resolver (- 5) (Some 10) False [xyz_100, xyz_110] 100
        (Some \<lparr>eventSymbol = ''.XYZC100'', delta = 1 / 2\<rparr>) xyz_quotes Empty
          = Inr ((3 - 11 / 10, 13 / 4 - 1, 83 / 40), ord)
      \<and> price ord = 52 / 25 \<and> nearest_even (1 / 100) (83 / 40) (52 / 25)"
    by simp
next
  from vertical_spread_pricing [THEN conjunct2, THEN conjunct1, rule_format, OF conjI,
      OF xyz_put_run]
    xyz_put_run
  show "\<exists>ord. put_body xyz_resolver 5 (Some 10) True [xyz_100, xyz_110] 110
        (Some \<lparr>eventSymbol = ''.XYZP110'', delta = - 1 / 2\<rparr>) (drop 2 xyz_quotes) (Parsed 2)
          = Inr ((3 - 11 / 10, 13 / 4 - 1, 83 / 40), ord)
      \<and> price ord = 2"
    by simp
qed (simp_all add: fits28_examples)

text \<open>
  A selected call with the 29-digit bid 3.0000000000000000000000000001 and a hedge call
  with the ask 1: the displayed bid is 2, not the difference of the two.
\<close>

lemma long_run:
  "call_body xyz_resolver (- 5) (Some 10) False [xyz_100, xyz_110] 100
      (Some \<lparr>eventSymbol = ''.XYZC100'', delta = 1 / 2\<rparr>) long_quotes Empty
    = Inr ((2, 7 / 2, 11 / 4),
        \<lparr>time_in_force = DAY, order_type = LIMIT,
         legs = [\<lparr>leg_symbol = ''XYZ C100'', quantity = 5, action = SELL_TO_OPEN\<rparr>,
                 \<lparr>leg_symbol = ''XYZ C110'', quantity = 5, action = BUY_TO_OPEN\<rparr>],
         price = 11 / 4, price_effect = CREDIT\<rparr>)"
  by code_simp

theorem inexact_bid_counterexample:
  "shown (call_body xyz_resolver (- 5) (Some 10) False [xyz_100, xyz_110] 100
      (Some \<lparr>eventSymbol = ''.XYZC100'', delta = 1 / 2\<rparr>) long_quotes Empty)
     = Inr (2, 7 / 2)
   \<and> bidPrice (long_quotes ! 1) - askPrice (long_quotes ! 0) = 2 + 1 / 10 ^ 28
   \<and> (2 + 1 / 10 ^ 28 :: rat) \<noteq> 2"
  by (simp add: long_run shown_def) (simp add: long_quotes_def)


section \<open>The legs of a vertical spread\<close>

text \<open>
  Claim C5, as the code has it. For a vertical spread of positive width, whatever the
  order in which the resolver returns the two contracts, the order has exactly two legs
  of quantity \<open>\<bar>q\<bar>\<close>; the first is the leg at the selected strike, SELL_TO_OPEN for a
  negative quantity and BUY_TO_OPEN otherwise, the second is the protective leg with the
  opposite action. So the legs of a call spread ascend by strike (the protective strike
  is the selected strike plus the width) and the legs of a put spread descend (the
  protective strike is the selected strike minus the width).
\<close>

theorem vertical_spread_legs:
  "(find (\<lambda>s. strike_price s = strk) strikes = Some s0
      \<and> find (\<lambda>s. strike_price s = strk + of_int w) strikes = Some sp \<and> 0 < w
      \<and> (get_options sdk [call s0, call sp] = [near, far]
           \<or> get_options sdk [call s0, call sp] = [far, near])
      \<and> option_strike near = strk \<and> option_strike far = strk + of_int w
    \<longrightarrow> call_legs sdk q (Some w) strikes strk =
          Inr [build_leg near \<bar>q\<bar> (if q < 0 then SELL_TO_OPEN else BUY_TO_OPEN),
               build_leg far \<bar>q\<bar> (if q < 0 then BUY_TO_OPEN else SELL_TO_OPEN)])
   \<and> (find (\<lambda>s. strike_price s = strk) strikes = Some s0
      \<and> find (\<lambda>s. strike_price s = strk - of_int w) strikes = Some sp \<and> 0 < w
      \<and> (get_options sdk [put s0, put sp] = [near, far]
           \<or> get_options sdk [put s0, put sp] = [far, near])
      \<and> option_strike near = strk \<and> option_strike far = strk - of_int w
    \<longrightarrow> put_legs sdk q (Some w) strikes strk =
          Inr [build_leg near \<bar>q\<bar> (if q < 0 then SELL_TO_OPEN else BUY_TO_OPEN),
               build_leg far \<bar>q\<bar> (if q < 0 then BUY_TO_OPEN else SELL_TO_OPEN)])"
  by (auto simp: call_legs_def put_legs_def call_spread_legs_def put_spread_legs_def
      sort_by_strike_def sort_by_strike_reverse_def)

theorem vertical_spread_legs_witness:
  "call_legs xyz_resolver (- 5) (Some 10) [xyz_100, xyz_110] 100 =
     Inr [\<lparr>leg_symbol = ''XYZ C100'', quantity = 5, action = SELL_TO_OPEN\<rparr>,
          \<lparr>leg_symbol = ''XYZ C110'', quantity = 5, action = BUY_TO_OPEN\<rparr>]
   \<and> put_legs xyz_resolver (- 5) (Some 10) [xyz_100, xyz_110] 110 =
     Inr [\<lparr>leg_symbol = ''XYZ P110'', quantity = 5, action = SELL_TO_OPEN\<rparr>,
          \<lparr>leg_symbol = ''XYZ P100'', quantity = 5, action = BUY_TO_OPEN\<rparr>]"
  using
    vertical_spread_legs [where strk = 100 and w = 10 and q = "- 5" and sdk = xyz_resolver
      and strikes = "[xyz_100, xyz_110]" and ?s0.0 = xyz_100 and sp = xyz_110
      and near = "\<lparr>symbol = ''XYZ C100'', option_strike = 100\<rparr>"
      and far = "\<lparr>symbol = ''XYZ C110'', option_strike = 110\<rparr>", THEN conjunct1]
    vertical_spread_legs [where strk = 110 and w = 10 and q = "- 5" and sdk = xyz_resolver
      and strikes = "[xyz_100, xyz_110]" and ?s0.0 = xyz_110 and sp = xyz_100
      and near = "\<lparr>symbol = ''XYZ P110'', option_strike = 110\<rparr>"
      and far = "\<lparr>symbol = ''XYZ P100'', option_strike = 100\<rparr>", THEN conjunct2]
  by (simp add: xyz_defs build_leg_def)

text \<open>
  Five put spreads 100/95 sold: the leg at 100 comes first, so the legs are not in
  ascending order of strike.
\<close>

theorem put_spread_order_counterexample:
  "put_spread_legs (- 5)
      [\<lparr>symbol = ''XYZ P95'', option_strike = 95\<rparr>, \<lparr>symbol = ''XYZ P100'', option_strike = 100\<rparr>]
     = Inr [build_leg \<lparr>symbol = ''XYZ P100'', option_strike = 100\<rparr> 5 SELL_TO_OPEN,
            build_leg \<lparr>symbol = ''XYZ P95'', option_strike = 95\<rparr> 5 BUY_TO_OPEN]
   \<and> \<not> sorted (map option_strike
          [\<lparr>symbol = ''XYZ P100'', option_strike = 100\<rparr>, \<lparr>symbol = ''XYZ P95'', option_strike = 95\<rparr>])"
  by (simp add: put_spread_legs_def sort_by_strike_reverse_def)

text \<open>
  With a negative width the protective call strike lies below the selected one, and the
  ascending sort then gives the first action to the protective leg.
\<close>

lemma call_spread_negative_width:
  "find (\<lambda>s. strike_price s = strk) strikes = Some s0 \<Longrightarrow>
   find (\<lambda>s. strike_price s = strk + of_int w) strikes = Some sp \<Longrightarrow> w < 0 \<Longrightarrow>
   get_options sdk [call s0, call sp] = [near, far] \<Longrightarrow>
   option_strike near = strk \<Longrightarrow> option_strike far = strk + of_int w \<Longrightarrow>
   call_legs sdk q (Some w) strikes strk =
     Inr [build_leg far \<bar>q\<bar> (if q < 0 then SELL_TO_OPEN else BUY_TO_OPEN),
          build_leg near \<bar>q\<bar> (if q < 0 then BUY_TO_OPEN else SELL_TO_OPEN)]"
  by (auto simp: call_legs_def call_spread_legs_def sort_by_strike_def)


section \<open>What the aggregation loops return\<close>

subsection \<open>Dictionaries and the stored events\<close>

lemma map_of_dict_set: "map_of (dict_set k v d) = (map_of d)(k \<mapsto> v)"
  by (induction d) (auto simp: fun_eq_iff)

lemma keys_dict_set: "fst ` set (dict_set k v d) = insert k (fst ` set d)"
proof (induction d)
  case Nil
  then show ?case by simp
next
  case (Cons p d)
  obtain k' v' where p: "p = (k', v')" by (cases p)
  show ?case
  proof (cases "k' = k")
    case True
    then show ?thesis by (simp add: p)
  next
    case False
    then show ?thesis using Cons.IH by (simp add: p insert_commute)
  qed
qed

lemma distinct_dict_set: "distinct (map fst d) \<Longrightarrow> distinct (map fst (dict_set k v d))"
proof (induction d)
  case Nil
  then show ?case by simp
next
  case (Cons p d)
  obtain k' v' where p: "p = (k', v')" by (cases p)
  from Cons show ?case
    using keys_dict_set [of k v d] by (auto simp: p)
qed

lemma stored_Nil: "stored skip d [] = d"
  by (simp add: stored_def)

lemma stored_Cons:
  "stored skip d (e # evs) =
     stored skip (if Some (eventSymbol e) \<noteq> skip then dict_set (eventSymbol e) e d else d) evs"
  by (simp add: stored_def)

lemma distinct_stored:
  "distinct (map fst d) \<Longrightarrow> distinct (map fst (stored skip d evs))"
  by (induction evs arbitrary: d) (simp_all add: stored_Nil stored_Cons distinct_dict_set)

lemma find_append_cases:
  "find P (xs @ ys) = (case find P xs of None \<Rightarrow> find P ys | Some x \<Rightarrow> Some x)"
  by (induction xs) auto

lemma last_event_Cons:
  "last_event skip s (e # evs) =
     (case last_event skip s evs of
        Some x \<Rightarrow> Some x
      | None \<Rightarrow> if eventSymbol e = s \<and> Some s \<noteq> skip then Some e else None)"
  by (auto simp: last_event_def find_append_cases split: option.splits)

lemma map_of_stored:
  "map_of (stored skip d evs) s =
     (case last_event skip s evs of Some e \<Rightarrow> Some e | None \<Rightarrow> map_of d s)"
proof (induction evs arbitrary: d)
  case Nil
  then show ?case by (simp add: stored_Nil last_event_def)
next
  case (Cons e evs)
  show ?case
    by (auto simp: stored_Cons Cons.IH last_event_Cons map_of_dict_set split: option.splits)
qed

lemma skipped_not_stored:
  "Some s = skip \<Longrightarrow> map_of (stored skip d evs) s = map_of d s"
  by (simp add: map_of_stored last_event_def)

lemma listen_quotes_from_stored:
  "listen_quotes_from d n evs skip = Some r \<Longrightarrow>
   \<exists>k<length evs. r = stored skip d (take (Suc k) evs) \<and> int (length r) = n
      \<and> (\<forall>j<k. int (length (stored skip d (take (Suc j) evs))) \<noteq> n)"
proof (induction evs arbitrary: d)
  case Nil
  then show ?case by simp
next
  case (Cons q evs)
  define d' where "d' = (if Some (eventSymbol q) \<noteq> skip then dict_set (eventSymbol q) q d else d)"
  have one: "stored skip d [q] = d'"
    by (simp add: stored_Cons stored_Nil d'_def)
  have more: "stored skip d (q # xs) = stored skip d' xs" for xs
    by (simp add: stored_Cons d'_def)
  show ?case
  proof (cases "int (length d') = n")
    case True
    with Cons.prems have "r = d'" by (simp add: d'_def Let_def)
    with True one show ?thesis by (intro exI [of _ 0]) simp
  next
    case False
    with Cons.prems have "listen_quotes_from d' n evs skip = Some r"
      by (simp add: d'_def Let_def)
    from Cons.IH [OF this] obtain k where k: "k < length evs"
      "r = stored skip d' (take (Suc k) evs)" "int (length r) = n"
      "\<forall>j<k. int (length (stored skip d' (take (Suc j) evs))) \<noteq> n"
      by blast
    have "\<forall>j<Suc k. int (length (stored skip d (take (Suc j) (q # evs)))) \<noteq> n"
    proof (intro allI impI)
      fix j assume "j < Suc k"
      then show "int (length (stored skip d (take (Suc j) (q # evs)))) \<noteq> n"
        using False one k(4) by (cases j) (simp_all add: more)
    qed
    with k show ?thesis by (intro exI [of _ "Suc k"]) (simp add: more)
  qed
qed

lemma listen_quotes_from_returns:
  "k < length evs \<Longrightarrow> int (length (stored skip d (take (Suc k) evs))) = n \<Longrightarrow>
   \<exists>r. listen_quotes_from d n evs skip = Some r"
proof (induction evs arbitrary: d k)
  case Nil
  then show ?case by simp
next
  case (Cons q evs)
  define d' where "d' = (if Some (eventSymbol q) \<noteq> skip then dict_set (eventSymbol q) q d else d)"
  show ?case
  proof (cases "int (length d') = n")
    case True
    then show ?thesis by (simp add: d'_def Let_def)
  next
    case False
    with Cons.prems obtain k' where k': "k = Suc k'"
      by (cases k) (simp_all add: stored_Cons stored_Nil d'_def)
    with Cons.prems have "k' < length evs"
      "int (length (stored skip d' (take (Suc k') evs))) = n"
      by (simp_all add: stored_Cons d'_def)
    from Cons.IH [OF this] False show ?thesis by (simp add: d'_def Let_def)
  qed
qed

lemma listen_greeks_from_stored:
  "listen_greeks_from d n evs = Some r \<Longrightarrow>
   \<exists>k<length evs. r = stored None d (take (Suc k) evs) \<and> int (length r) = n
      \<and> (\<forall>j<k. int (length (stored None d (take (Suc j) evs))) \<noteq> n)"
proof (induction evs arbitrary: d)
  case Nil
  then show ?case by simp
next
  case (Cons q evs)
  define d' where "d' = dict_set (eventSymbol q) q d"
  have one: "stored None d [q] = d'"
    by (simp add: stored_Cons stored_Nil d'_def)
  have more: "stored None d (q # xs) = stored None d' xs" for xs
    by (simp add: stored_Cons d'_def)
  show ?case
  proof (cases "int (length d') = n")
    case True
    with Cons.prems have "r = d'" by (simp add: d'_def Let_def)
    with True one show ?thesis by (intro exI [of _ 0]) simp
  next
    case False
    with Cons.prems have "listen_greeks_from d' n evs = Some r"
      by (simp add: d'_def Let_def)
    from Cons.IH [OF this] obtain k where k: "k < length evs"
      "r = stored None d' (take (Suc k) evs)" "int (length r) = n"
      "\<forall>j<k. int (length (stored None d' (take (Suc j) evs))) \<noteq> n"
      by blast
    have "\<forall>j<Suc k. int (length (stored None d (take (Suc j) (q # evs)))) \<noteq> n"
    proof (intro allI impI)
      fix j assume "j < Suc k"
      then show "int (length (stored None d (take (Suc j) (q # evs)))) \<noteq> n"
        using False one k(4) by (cases j) (simp_all add: more)
    qed
    with k show ?thesis by (intro exI [of _ "Suc k"]) (simp add: more)
  qed
qed

lemma listen_greeks_from_returns:
  "k < length evs \<Longrightarrow> int (length (stored None d (take (Suc k) evs))) = n \<Longrightarrow>
   \<exists>r. listen_greeks_from d n evs = Some r"
proof (induction evs arbitrary: d k)
  case Nil
  then show ?case by simp
next
  case (Cons q evs)
  define d' where "d' = dict_set (eventSymbol q) q d"
  show ?case
  proof (cases "int (length d') = n")
    case True
    then show ?thesis by (simp add: d'_def Let_def)
  next
    case False
    with Cons.prems obtain k' where k': "k = Suc k'"
      by (cases k) (simp_all add: stored_Cons stored_Nil d'_def)
    with Cons.prems have "k' < length evs"
      "int (length (stored None d' (take (Suc k') evs))) = n"
      by (simp_all add: stored_Cons d'_def)
    from Cons.IH [OF this] False show ?thesis by (simp add: d'_def Let_def)
  qed
qed

subsection \<open>The first complete snapshot\<close>

lemma xy_run:
  "listen_quotes 2 xy_feed None =
     Some [(''X'', \<lparr>eventSymbol = ''X'', bidPrice = 1, askPrice = 1\<rparr>),
           (''Y'', \<lparr>eventSymbol = ''Y'', bidPrice = 2, askPrice = 2\<rparr>)]"
  by (simp add: listen_quotes_def xy_feed_def)

lemma xy_greeks_run:
  "listen_greeks 2
     [\<lparr>eventSymbol = ''X'', delta = 3 / 10\<rparr>, \<lparr>eventSymbol = ''X'', delta = 1 / 4\<rparr>,
      \<lparr>eventSymbol = ''Y'', delta = 1 / 2\<rparr>] =
     Some [(''X'', \<lparr>eventSymbol = ''X'', delta = 1 / 4\<rparr>),
           (''Y'', \<lparr>eventSymbol = ''Y'', delta = 1 / 2\<rparr>)]"
  by (simp add: listen_greeks_def)

text \<open>
  Claim C1, as the code has it. An aggregation loop returns exactly when, for the first
  time after an event, its mapping holds \<open>n\<close> distinct symbols; the mapping it returns
  holds, for each symbol, the last event for that symbol among the events consumed up to
  that moment. Events that arrive later are never read: on the feed X (bid 1.0),
  Y (bid 2.0), X (bid 1.2) with \<open>n = 2\<close> the loop returns after the second event.
\<close>

theorem aggregation_first_complete_snapshot:
  "(listen_quotes n stream skip = Some d \<longrightarrow>
      int (length d) = n \<and> distinct (map fst d)
      \<and> (\<exists>k<length stream. d = stored skip [] (take (Suc k) stream)
            \<and> (\<forall>s. map_of d s = last_event skip s (take (Suc k) stream))
            \<and> (\<forall>j<k. int (length (stored skip [] (take (Suc j) stream))) \<noteq> n)))
   \<and> (listen_greeks n gstream = Some gd \<longrightarrow>
      int (length gd) = n \<and> distinct (map fst gd)
      \<and> (\<exists>k<length gstream. gd = stored None [] (take (Suc k) gstream)
            \<and> (\<forall>s. map_of gd s = last_event None s (take (Suc k) gstream))
            \<and> (\<forall>j<k. int (length (stored None [] (take (Suc j) gstream))) \<noteq> n)))
   \<and> ((\<exists>k<length stream. int (length (stored skip [] (take (Suc k) stream))) = n)
        \<longrightarrow> listen_quotes n stream skip \<noteq> None)
   \<and> ((\<exists>k<length gstream. int (length (stored None [] (take (Suc k) gstream))) = n)
        \<longrightarrow> listen_greeks n gstream \<noteq> None)"
proof (intro conjI impI)
  assume a: "listen_quotes n stream skip = Some d"
  then have "listen_quotes_from [] n stream skip = Some d"
    by (simp add: listen_quotes_def)
  from listen_quotes_from_stored [OF this] obtain k where k: "k < length stream"
    "d = stored skip [] (take (Suc k) stream)" "int (length d) = n"
    "\<forall>j<k. int (length (stored skip [] (take (Suc j) stream))) \<noteq> n"
    by blast
  show "int (length d) = n" by (rule k(3))
  show "distinct (map fst d)" unfolding k(2) by (rule distinct_stored) simp
  have "\<forall>s. map_of d s = last_event skip s (take (Suc k) stream)"
    unfolding k(2) by (simp add: map_of_stored split: option.splits)
  with k show "\<exists>k<length stream. d = stored skip [] (take (Suc k) stream)
            \<and> (\<forall>s. map_of d s = last_event skip s (take (Suc k) stream))
            \<and> (\<forall>j<k. int (length (stored skip [] (take (Suc j) stream))) \<noteq> n)"
    by blast
next
  assume a: "listen_greeks n gstream = Some gd"
  then have "listen_greeks_from [] n gstream = Some gd"
    by (simp add: listen_greeks_def)
  from listen_greeks_from_stored [OF this] obtain k where k: "k < length gstream"
    "gd = stored None [] (take (Suc k) gstream)" "int (length gd) = n"
    "\<forall>j<k. int (length (stored None [] (take (Suc j) gstream))) \<noteq> n"
    by blast
  show "int (length gd) = n" by (rule k(3))
  show "distinct (map fst gd)" unfolding k(2) by (rule distinct_stored) simp
  have "\<forall>s. map_of gd s = last_event None s (take (Suc k) gstream)"
    unfolding k(2) by (simp add: map_of_stored split: option.splits)
  with k show "\<exists>k<length gstream. gd = stored None [] (take (Suc k) gstream)
            \<and> (\<forall>s. map_of gd s = last_event None s (take (Suc k) gstream))
            \<and> (\<forall>j<k. int (length (stored None [] (take (Suc j) gstream))) \<noteq> n)"
    by blast
next
  assume "\<exists>k<length stream. int (length (stored skip [] (take (Suc k) stream))) = n"
  then obtain k where "k < length stream"
    "int (length (stored skip [] (take (Suc k) stream))) = n" by blast
  from listen_quotes_from_returns [OF this]
  show "listen_quotes n stream skip \<noteq> None" by (auto simp: listen_quotes_def)
next
  assume "\<exists>k<length gstream. int (length (stored None [] (take (Suc k) gstream))) = n"
  then obtain k where "k < length gstream"
    "int (length (stored None [] (take (Suc k) gstream))) = n" by blast
  from listen_greeks_from_returns [OF this]
  show "listen_greeks n gstream \<noteq> None" by (auto simp: listen_greeks_def)
qed

theorem aggregation_first_complete_snapshot_witness:
  "listen_quotes 2 xy_feed None =
     Some [(''X'', \<lparr>eventSymbol = ''X'', bidPrice = 1, askPrice = 1\<rparr>),
           (''Y'', \<lparr>eventSymbol = ''Y'', bidPrice = 2, askPrice = 2\<rparr>)]
   \<and> int (length [(''X'', \<lparr>eventSymbol = ''X'', bidPrice = 1, askPrice = 1\<rparr>),
           (''Y'', \<lparr>eventSymbol = ''Y'', bidPrice = 2, askPrice = (2::rat)\<rparr>)]) = 2
   \<and> listen_greeks 2
     [\<lparr>eventSymbol = ''X'', delta = 3 / 10\<rparr>, \<lparr>eventSymbol = ''X'', delta = 1 / 4\<rparr>,
      \<lparr>eventSymbol = ''Y'', delta = 1 / 2\<rparr>] =
     Some [(''X'', \<lparr>eventSymbol = ''X'', delta = 1 / 4\<rparr>),
           (''Y'', \<lparr>eventSymbol = ''Y'', delta = 1 / 2\<rparr>)]
   \<and> int (length [(''X'', \<lparr>eventSymbol = ''X'', delta = 1 / 4\<rparr>),
           (''Y'', \<lparr>eventSymbol = ''Y'', delta = (1 / 2 :: rat)\<rparr>)]) = 2
   \<and> (\<exists>k<length xy_feed. int (length (stored None [] (take (Suc k) xy_feed))) = 2)
   \<and> listen_quotes 2 xy_feed None \<noteq> None"
proof -
  have e: "\<exists>k<length xy_feed. int (length (stored None [] (take (Suc k) xy_feed))) = 2"
    by (intro exI [of _ 1]) (simp add: xy_feed_def stored_def)
  note t = aggregation_first_complete_snapshot
  from t [THEN conjunct1, rule_format, OF xy_run]
  have a: "int (length [(''X'', \<lparr>eventSymbol = ''X'', bidPrice = 1, askPrice = 1\<rparr>),
           (''Y'', \<lparr>eventSymbol = ''Y'', bidPrice = 2, askPrice = (2::rat)\<rparr>)]) = 2"
    by (rule conjunct1)
  from t [THEN conjunct2, THEN conjunct1, rule_format, OF xy_greeks_run]
  have b: "int (length [(''X'', \<lparr>eventSymbol = ''X'', delta = 1 / 4\<rparr>),
           (''Y'', \<lparr>eventSymbol = ''Y'', delta = (1 / 2 :: rat)\<rparr>)]) = 2"
    by (rule conjunct1)
  from t [THEN conjunct2, THEN conjunct2, THEN conjunct1, rule_format, OF e]
  have c: "listen_quotes 2 xy_feed None \<noteq> None" .
  from xy_run a xy_greeks_run b e c show ?thesis by blast
qed

text \<open>
  The feed of the claim: the result maps X to the reading with bid 1.0, not to the one
  with bid 1.2.
\<close>

theorem aggregation_example_counterexample:
  "listen_quotes 2 xy_feed None =
     Some [(''X'', \<lparr>eventSymbol = ''X'', bidPrice = 1, askPrice = 1\<rparr>),
           (''Y'', \<lparr>eventSymbol = ''Y'', bidPrice = 2, askPrice = 2\<rparr>)]
   \<and> map_option bidPrice
        (map_of [(''X'', \<lparr>eventSymbol = ''X'', bidPrice = 1, askPrice = 1\<rparr>),
                 (''Y'', \<lparr>eventSymbol = ''Y'', bidPrice = 2, askPrice = 2\<rparr>)] ''X'')
       \<noteq> Some (6 / 5)"
  by (simp add: listen_quotes_def xy_feed_def)

subsection \<open>The skipped symbol\<close>

lemma skip_as_filter:
  "int (length d) \<noteq> n \<Longrightarrow>
   listen_quotes_from d n stream (Some S) =
   listen_quotes_from d n (filter (\<lambda>q. eventSymbol q \<noteq> S) stream) None"
  by (induction stream arbitrary: d) (simp_all add: Let_def)


lemma chain_run:
  "listen_quotes 2 chain_feed (Some ''XYZ'') =
     Some [(''.XYZC100'', \<lparr>eventSymbol = ''.XYZC100'', bidPrice = 3, askPrice = 13 / 4\<rparr>),
           (''.XYZP100'', \<lparr>eventSymbol = ''.XYZP100'', bidPrice = 1, askPrice = 11 / 10\<rparr>)]"
  by (simp add: listen_quotes_def chain_feed_def)

text \<open>
  Claim C7. An event for the skip symbol is never stored, so the returned mapping has no
  entry for it, and it does not count: for a count other than zero the loop with the
  skip symbol returns what the plain loop returns on the feed with those events taken
  out. Neither statement refers to the expected symbols, of which the loop knows only
  the count.
\<close>

theorem skip_symbol_discarded:
  "(listen_quotes n stream (Some S) = Some d \<longrightarrow> map_of d S = None \<and> S \<notin> fst ` set d)
   \<and> (n \<noteq> 0 \<longrightarrow>
        listen_quotes n stream (Some S)
          = listen_quotes n (filter (\<lambda>q. eventSymbol q \<noteq> S) stream) None)"
proof (intro conjI impI)
  assume "listen_quotes n stream (Some S) = Some d"
  then have "listen_quotes_from [] n stream (Some S) = Some d"
    by (simp add: listen_quotes_def)
  from listen_quotes_from_stored [OF this] obtain k where
    "d = stored (Some S) [] (take (Suc k) stream)" by blast
  then show m: "map_of d S = None" by (simp add: skipped_not_stored)
  then show "S \<notin> fst ` set d" by (simp add: map_of_eq_None_iff)
next
  assume "n \<noteq> 0"
  then show "listen_quotes n stream (Some S)
          = listen_quotes n (filter (\<lambda>q. eventSymbol q \<noteq> S) stream) None"
    by (simp add: listen_quotes_def skip_as_filter)
qed

theorem skip_symbol_discarded_witness:
  "listen_quotes 2 chain_feed (Some ''XYZ'') =
     Some [(''.XYZC100'', \<lparr>eventSymbol = ''.XYZC100'', bidPrice = 3, askPrice = 13 / 4\<rparr>),
           (''.XYZP100'', \<lparr>eventSymbol = ''.XYZP100'', bidPrice = 1, askPrice = 11 / 10\<rparr>)]
   \<and> map_of [(''.XYZC100'', \<lparr>eventSymbol = ''.XYZC100'', bidPrice = 3, askPrice = 13 / 4\<rparr>),
           (''.XYZP100'', \<lparr>eventSymbol = ''.XYZP100'', bidPrice = 1, askPrice = (11 / 10 :: rat)\<rparr>)]
        ''XYZ'' = None
   \<and> (2::int) \<noteq> 0
   \<and> listen_quotes 2 chain_feed (Some ''XYZ'')
        = listen_quotes 2 (filter (\<lambda>q. eventSymbol q \<noteq> ''XYZ'') chain_feed) None"
  using skip_symbol_discarded [THEN conjunct1, rule_format, OF chain_run]
    skip_symbol_discarded [THEN conjunct2, rule_format, of 2 chain_feed "''XYZ''"]
    chain_run
  by simp

text \<open>
  With the count zero the completion test after a skipped event succeeds on the empty
  mapping.
\<close>

lemma skip_zero_edge:
  "listen_quotes 0 [\<lparr>eventSymbol = ''XYZ'', bidPrice = 100, askPrice = 101\<rparr>] (Some ''XYZ'') = Some []
   \<and> listen_quotes 0 [] (Some ''XYZ'') = None"
  by (simp add: listen_quotes_def)


section \<open>Selection by delta\<close>

lemma call_select_from_shape:
  "call_select_from lowest selected gs target =
     select_from (\<lambda>g. \<bar>delta g * 100 - of_int target\<bar>) lowest selected gs"
  by (induction gs arbitrary: lowest selected) (simp_all add: Let_def)

lemma put_select_from_shape:
  "put_select_from lowest selected gs target =
     select_from (\<lambda>g. \<bar>delta g * 100 + of_int target\<bar>) lowest selected gs"
  by (induction gs arbitrary: lowest selected) (simp_all add: Let_def)

lemma select_from_none_below:
  "\<forall>x\<in>set gs. lowest \<le> dev x \<Longrightarrow> select_from dev lowest selected gs = selected"
  by (induction gs arbitrary: lowest selected) auto

lemma select_from_first_min:
  "\<exists>x\<in>set gs. dev x < lowest \<Longrightarrow>
   \<exists>g pre post. select_from dev lowest selected gs = Some g \<and> gs = pre @ g # post
      \<and> dev g < lowest \<and> (\<forall>x\<in>set pre. dev g < dev x) \<and> (\<forall>x\<in>set post. dev g \<le> dev x)"
proof (induction gs arbitrary: lowest selected)
  case Nil
  then show ?case by simp
next
  case (Cons a gs)
  show ?case
  proof (cases "dev a < lowest")
    case True
    show ?thesis
    proof (cases "\<exists>x\<in>set gs. dev x < dev a")
      case True
      from Cons.IH [OF True, of "Some a"] obtain g pre post where
        g: "select_from dev (dev a) (Some a) gs = Some g" "gs = pre @ g # post"
          "dev g < dev a" "\<forall>x\<in>set pre. dev g < dev x" "\<forall>x\<in>set post. dev g \<le> dev x"
        by blast
      have "select_from dev lowest selected (a # gs) = Some g"
        using \<open>dev a < lowest\<close> g(1) by simp
      moreover have "a # gs = (a # pre) @ g # post" using g(2) by simp
      moreover have "dev g < lowest" using g(3) \<open>dev a < lowest\<close> by simp
      moreover have "\<forall>x\<in>set (a # pre). dev g < dev x" using g(3,4) by simp
      ultimately show ?thesis using g(5) by blast
    next
      case False
      then have "\<forall>x\<in>set gs. dev a \<le> dev x" by (auto simp: not_less)
      with select_from_none_below [OF this, of "Some a"] \<open>dev a < lowest\<close>
      have "select_from dev lowest selected (a # gs) = Some a \<and> a # gs = [] @ a # gs
        \<and> dev a < lowest \<and> (\<forall>x\<in>set []. dev a < dev x) \<and> (\<forall>x\<in>set gs. dev a \<le> dev x)"
        by simp
      then show ?thesis by blast
    qed
  next
    case False
    with Cons.prems have "\<exists>x\<in>set gs. dev x < lowest" by auto
    from Cons.IH [OF this, of selected] obtain g pre post where
      g: "select_from dev lowest selected gs = Some g" "gs = pre @ g # post"
        "dev g < lowest" "\<forall>x\<in>set pre. dev g < dev x" "\<forall>x\<in>set post. dev g \<le> dev x"
      by blast
    have "select_from dev lowest selected (a # gs) = Some g"
      using False g(1) by simp
    moreover have "a # gs = (a # pre) @ g # post" using g(2) by simp
    moreover have "\<forall>x\<in>set (a # pre). dev g < dev x" using g(3,4) False by auto
    ultimately show ?thesis using g(3,5) by blast
  qed
qed

lemma select_from_initial:
  "select_from dev lowest None gs = Some g \<Longrightarrow>
   \<exists>pre post. gs = pre @ g # post \<and> dev g < lowest
      \<and> (\<forall>x\<in>set pre. dev g < dev x) \<and> (\<forall>x\<in>set post. dev g \<le> dev x)"
proof -
  assume a: "select_from dev lowest None gs = Some g"
  have "\<exists>x\<in>set gs. dev x < lowest"
  proof (rule ccontr)
    assume "\<not> (\<exists>x\<in>set gs. dev x < lowest)"
    then have "\<forall>x\<in>set gs. lowest \<le> dev x" by (auto simp: not_less)
    from select_from_none_below [OF this, of None] a show False by simp
  qed
  from select_from_first_min [OF this, of None] a show ?thesis by auto
qed

lemma abc_call_run: "call_select abc_greeks 30 = Some \<lparr>eventSymbol = ''A'', delta = 3 / 10\<rparr>"
  by (simp add: call_select_def abc_greeks_def)

lemma tie_put_run:
  "put_select [\<lparr>eventSymbol = ''P1'', delta = - (7 / 25)\<rparr>, \<lparr>eventSymbol = ''P2'', delta = - (8 / 25)\<rparr>] 30
     = Some \<lparr>eventSymbol = ''P1'', delta = - (7 / 25)\<rparr>"
  by (simp add: put_select_def)

text \<open>
  What the two loops compute. The selection returns the first reading, in iteration
  order, among those of least absolute deviation (\<open>delta * 100 - target\<close> on the call
  side, \<open>delta * 100 + target\<close> on the put side), provided that this least deviation
  is below 100, the initial value of \<^verbatim>\<open>lowest\<close>: every reading before the
  selected one deviates strictly more, every reading after it at least as much. A
  reading is selected if and only if some reading deviates by less than 100. With the
  readings A (0.30), B (0.32), C (0.25) and target 30 the call side selects A.
\<close>

theorem delta_selection_first_minimum:
  "(call_select gs target = Some g \<longrightarrow>
      (\<exists>pre post. gs = pre @ g # post
         \<and> \<bar>delta g * 100 - of_int target\<bar> < 100
         \<and> (\<forall>x\<in>set pre. \<bar>delta g * 100 - of_int target\<bar> < \<bar>delta x * 100 - of_int target\<bar>)
         \<and> (\<forall>x\<in>set post. \<bar>delta g * 100 - of_int target\<bar> \<le> \<bar>delta x * 100 - of_int target\<bar>)))
   \<and> ((\<exists>x\<in>set gs. \<bar>delta x * 100 - of_int target\<bar> < 100) \<longrightarrow> call_select gs target \<noteq> None)
   \<and> ((\<forall>x\<in>set gs. 100 \<le> \<bar>delta x * 100 - of_int target\<bar>) \<longrightarrow> call_select gs target = None)
   \<and> (put_select gs target = Some g \<longrightarrow>
      (\<exists>pre post. gs = pre @ g # post
         \<and> \<bar>delta g * 100 + of_int target\<bar> < 100
         \<and> (\<forall>x\<in>set pre. \<bar>delta g * 100 + of_int target\<bar> < \<bar>delta x * 100 + of_int target\<bar>)
         \<and> (\<forall>x\<in>set post. \<bar>delta g * 100 + of_int target\<bar> \<le> \<bar>delta x * 100 + of_int target\<bar>)))
   \<and> ((\<exists>x\<in>set gs. \<bar>delta x * 100 + of_int target\<bar> < 100) \<longrightarrow> put_select gs target \<noteq> None)
   \<and> ((\<forall>x\<in>set gs. 100 \<le> \<bar>delta x * 100 + of_int target\<bar>) \<longrightarrow> put_select gs target = None)"
proof (intro conjI impI)
  assume "call_select gs target = Some g"
  then have "select_from (\<lambda>g. \<bar>delta g * 100 - of_int target\<bar>) 100 None gs = Some g"
    by (simp add: call_select_def call_select_from_shape)
  from select_from_initial [OF this]
  show "\<exists>pre post. gs = pre @ g # post
         \<and> \<bar>delta g * 100 - of_int target\<bar> < 100
         \<and> (\<forall>x\<in>set pre. \<bar>delta g * 100 - of_int target\<bar> < \<bar>delta x * 100 - of_int target\<bar>)
         \<and> (\<forall>x\<in>set post. \<bar>delta g * 100 - of_int target\<bar> \<le> \<bar>delta x * 100 - of_int target\<bar>)"
    by simp
next
  assume "\<exists>x\<in>set gs. \<bar>delta x * 100 - of_int target\<bar> < 100"
  from select_from_first_min [of gs "\<lambda>g. \<bar>delta g * 100 - of_int target\<bar>" 100 None, OF this]
  show "call_select gs target \<noteq> None"
    by (auto simp: call_select_def call_select_from_shape)
next
  assume "\<forall>x\<in>set gs. 100 \<le> \<bar>delta x * 100 - of_int target\<bar>"
  from select_from_none_below [of gs 100 "\<lambda>g. \<bar>delta g * 100 - of_int target\<bar>" None, OF this]
  show "call_select gs target = None"
    by (simp add: call_select_def call_select_from_shape)
next
  assume "put_select gs target = Some g"
  then have "select_from (\<lambda>g. \<bar>delta g * 100 + of_int target\<bar>) 100 None gs = Some g"
    by (simp add: put_select_def put_select_from_shape)
  from select_from_initial [OF this]
  show "\<exists>pre post. gs = pre @ g # post
         \<and> \<bar>delta g * 100 + of_int target\<bar> < 100
         \<and> (\<forall>x\<in>set pre. \<bar>delta g * 100 + of_int target\<bar> < \<bar>delta x * 100 + of_int target\<bar>)
         \<and> (\<forall>x\<in>set post. \<bar>delta g * 100 + of_int target\<bar> \<le> \<bar>delta x * 100 + of_int target\<bar>)"
    by simp
next
  assume "\<exists>x\<in>set gs. \<bar>delta x * 100 + of_int target\<bar> < 100"
  from select_from_first_min [of gs "\<lambda>g. \<bar>delta g * 100 + of_int target\<bar>" 100 None, OF this]
  show "put_select gs target \<noteq> None"
    by (auto simp: put_select_def put_select_from_shape)
next
  assume "\<forall>x\<in>set gs. 100 \<le> \<bar>delta x * 100 + of_int target\<bar>"
  from select_from_none_below [of gs 100 "\<lambda>g. \<bar>delta g * 100 + of_int target\<bar>" None, OF this]
  show "put_select gs target = None"
    by (simp add: put_select_def put_select_from_shape)
qed

theorem delta_selection_first_minimum_witness:
  "call_select abc_greeks 30 = Some \<lparr>eventSymbol = ''A'', delta = 3 / 10\<rparr>
   \<and> (\<exists>pre post. abc_greeks = pre @ \<lparr>eventSymbol = ''A'', delta = 3 / 10\<rparr> # post
         \<and> \<bar>(3 / 10 :: rat) * 100 - of_int 30\<bar> < 100)
   \<and> put_select [\<lparr>eventSymbol = ''P1'', delta = - (7 / 25)\<rparr>,
                  \<lparr>eventSymbol = ''P2'', delta = - (8 / 25)\<rparr>] 30
       = Some \<lparr>eventSymbol = ''P1'', delta = - (7 / 25)\<rparr>
   \<and> \<bar>(- (7 / 25) :: rat) * 100 + of_int 30\<bar> < 100
   \<and> call_select [\<lparr>eventSymbol = ''A'', delta = 4 / 5\<rparr>] (- 30) = None"
proof -
  note t = delta_selection_first_minimum
  from t [THEN conjunct1, rule_format, OF abc_call_run]
  have a: "\<exists>pre post. abc_greeks = pre @ \<lparr>eventSymbol = ''A'', delta = 3 / 10\<rparr> # post
         \<and> \<bar>(3 / 10 :: rat) * 100 - of_int 30\<bar> < 100"
    by auto
  from t [THEN conjunct2, THEN conjunct2, THEN conjunct2, THEN conjunct1, rule_format,
      OF tie_put_run]
  have b: "\<bar>(- (7 / 25) :: rat) * 100 + of_int 30\<bar> < 100"
    by auto
  have "\<forall>x\<in>set [\<lparr>eventSymbol = ''A'', delta = 4 / 5\<rparr>]. 100 \<le> \<bar>delta x * 100 - of_int (- 30)\<bar>"
    by simp
  from t [THEN conjunct2, THEN conjunct2, THEN conjunct1, THEN mp, OF this]
  have c: "call_select [\<lparr>eventSymbol = ''A'', delta = 4 / 5\<rparr>] (- 30) = None" .
  from abc_call_run a tie_put_run b c show ?thesis by blast
qed

text \<open>
  Claim C2. For every non-empty set of readings and every in-range target, delta
  selection is to return the reading of least absolute deviation, the first one in
  iteration order on a tie. The loop starts from \<^verbatim>\<open>lowest = 100\<close> and accepts
  only a smaller deviation, so it misses the closest reading when every reading deviates
  by 100 or more. The call command with the target \<open>-30\<close>, which the parameter check
  lets through, on a chain of one strike whose call has delta 0.80 (deviation 110):
  \<^verbatim>\<open>listen_greeks\<close> returns the one reading, the loop selects nothing, and the
  statement under \<^verbatim>\<open># set strike with the closest delta\<close> fails with
  \<^verbatim>\<open>AttributeError\<close> on \<^verbatim>\<open>selected.eventSymbol\<close>.
\<close>

theorem delta_selection_misses_closest:
  "call_check None (Some (- 30)) = Proceeds
   \<and> listen_greeks 1 [\<lparr>eventSymbol = ''.XYZC100'', delta = 4 / 5\<rparr>]
       = Some [(''.XYZC100'', \<lparr>eventSymbol = ''.XYZC100'', delta = 4 / 5\<rparr>)]
   \<and> call_select [\<lparr>eventSymbol = ''.XYZC100'', delta = 4 / 5\<rparr>] (- 30) = None
   \<and> call_strike_by_delta [xyz_100]
         [(''.XYZC100'', \<lparr>eventSymbol = ''.XYZC100'', delta = 4 / 5\<rparr>)] (- 30)
       = Inl AttributeError"
  by (simp add: call_check_def given_def falsy_def delta_too_high_def listen_greeks_def
      call_select_def call_strike_by_delta_def xyz_100_def)

section \<open>Choosing the expiration\<close>

lemma index_of_Some: "index_of x xs = Some i \<Longrightarrow> i < length xs \<and> xs ! i = x"
  by (induction xs arbitrary: i) (auto split: if_splits)

lemma index_of_None: "(index_of x xs = None) = (x \<notin> set xs)"
  by (induction xs) auto

lemma choose_loop_member:
  "dflt < length exps \<Longrightarrow> choose_loop exps dflt choice replies = Inr r \<Longrightarrow> r \<in> set exps"
proof (induction replies arbitrary: choice)
  case Nil
  then show ?case by (auto split: if_splits)
next
  case (Cons raw rest)
  show ?case
  proof (cases "1 \<le> choice \<and> choice < int (length exps) + 1")
    case True
    with Cons.prems show ?thesis by auto
  next
    case False
    with Cons.prems Cons.IH show ?thesis
      by (cases raw) (auto split: if_splits)
  qed
qed

lemma choose_loop_empty_after_rejected:
  "\<not> (1 \<le> choice \<and> choice < int (length exps) + 1) \<Longrightarrow>
   \<forall>r\<in>set pre. r = Unparsable \<or> (\<exists>k. r = Parsed k \<and> \<not> (1 \<le> k \<and> k < int (length exps) + 1)) \<Longrightarrow>
   choose_loop exps dflt choice (pre @ Empty # rest) = Inr (exps ! dflt)"
proof (induction pre arbitrary: choice)
  case Nil
  then show ?case by auto
next
  case (Cons raw pre)
  from Cons.prems(2) have
    raw: "raw = Unparsable \<or> (\<exists>k. raw = Parsed k \<and> \<not> (1 \<le> k \<and> k < int (length exps) + 1))"
    and pre: "\<forall>r\<in>set pre. r = Unparsable
        \<or> (\<exists>k. r = Parsed k \<and> \<not> (1 \<le> k \<and> k < int (length exps) + 1))"
    by simp_all
  from raw show ?case
  proof
    assume "raw = Unparsable"
    with Cons.prems(1) Cons.IH [OF Cons.prems(1) pre] show ?thesis by auto
  next
    assume "\<exists>k. raw = Parsed k \<and> \<not> (1 \<le> k \<and> k < int (length exps) + 1)"
    then obtain k where k: "raw = Parsed k" "\<not> (1 \<le> k \<and> k < int (length exps) + 1)"
      by blast
    with Cons.prems(1) Cons.IH [OF k(2) pre] show ?thesis by auto
  qed
qed

lemma weekday_examples:
  "weekday \<lparr>year = 2024, month = 6, day = 14\<rparr> = 4"
  "weekday \<lparr>year = 2024, month = 6, day = 21\<rparr> = 4"
  "weekday \<lparr>year = 2024, month = 6, day = 28\<rparr> = 4"
  "weekday \<lparr>year = 2024, month = 7, day = 19\<rparr> = 4"
  "weekday \<lparr>year = 2024, month = 8, day = 15\<rparr> = 3"
  by (simp_all add: weekday_def toordinal_def days_before_year_def days_before_month_def
      is_leap_def)

lemma xyz_offered:
  "offered xyz_dates False =
     [\<lparr>year = 2024, month = 6, day = 21\<rparr>, \<lparr>year = 2024, month = 7, day = 19\<rparr>]"
  by (simp add: offered_def xyz_dates_def is_monthly_def weekday_examples)

text \<open>
  Claim C9. Unless the weeklies flag is set, the expirations offered are exactly those
  of the chain that fall on a Friday with a day of month from 15 to 21; whatever is
  returned is one of the offered expirations; and when the operator enters the empty
  line, after any number of lines that are not a number of the list, the function
  returns the value of \<^verbatim>\<open>get_tasty_monthly()\<close>, which must be among the offered
  expirations for the prompt to be reached at all (otherwise \<^verbatim>\<open>exps.index\<close>
  raises \<^verbatim>\<open>ValueError\<close> before the first prompt).
\<close>

theorem expiration_choice:
  "(\<not> include_weeklies \<longrightarrow> set (offered chain_dates include_weeklies)
        = {e \<in> set chain_dates. weekday e = 4 \<and> 15 \<le> day e \<and> day e \<le> 21})
   \<and> (choose_expiration chain_dates include_weeklies tasty_monthly replies = Inr r
        \<longrightarrow> r \<in> set (offered chain_dates include_weeklies))
   \<and> ((\<forall>a\<in>set pre. a = Unparsable
          \<or> (\<exists>k. a = Parsed k
                \<and> \<not> (1 \<le> k \<and> k < int (length (offered chain_dates include_weeklies)) + 1)))
        \<longrightarrow> choose_expiration chain_dates include_weeklies tasty_monthly (pre @ Empty # rest)
            = (if tasty_monthly \<in> set (offered chain_dates include_weeklies)
               then Inr tasty_monthly else Inl ValueError))"
proof (intro conjI impI)
  assume "\<not> include_weeklies"
  then show "set (offered chain_dates include_weeklies)
        = {e \<in> set chain_dates. weekday e = 4 \<and> 15 \<le> day e \<and> day e \<le> 21}"
    by (auto simp: offered_def is_monthly_def)
next
  assume a: "choose_expiration chain_dates include_weeklies tasty_monthly replies = Inr r"
  then obtain dflt where d: "index_of tasty_monthly (offered chain_dates include_weeklies) = Some dflt"
    "choose_loop (offered chain_dates include_weeklies) dflt 0 replies = Inr r"
    by (auto simp: choose_expiration_def Let_def split: option.splits)
  from index_of_Some [OF d(1)] choose_loop_member [OF _ d(2)]
  show "r \<in> set (offered chain_dates include_weeklies)" by simp
next
  assume p: "\<forall>a\<in>set pre. a = Unparsable
          \<or> (\<exists>k. a = Parsed k
                \<and> \<not> (1 \<le> k \<and> k < int (length (offered chain_dates include_weeklies)) + 1))"
  show "choose_expiration chain_dates include_weeklies tasty_monthly (pre @ Empty # rest)
            = (if tasty_monthly \<in> set (offered chain_dates include_weeklies)
               then Inr tasty_monthly else Inl ValueError)"
  proof (cases "index_of tasty_monthly (offered chain_dates include_weeklies)")
    case None
    then show ?thesis
      by (simp add: choose_expiration_def index_of_None [symmetric])
  next
    case (Some dflt)
    from index_of_Some [OF Some] have
      "offered chain_dates include_weeklies ! dflt = tasty_monthly"
      "tasty_monthly \<in> set (offered chain_dates include_weeklies)"
      by auto
    moreover have "choose_loop (offered chain_dates include_weeklies) dflt 0 (pre @ Empty # rest)
        = Inr (offered chain_dates include_weeklies ! dflt)"
      by (rule choose_loop_empty_after_rejected [OF _ p]) simp
    ultimately show ?thesis using Some by (simp add: choose_expiration_def)
  qed
qed

theorem expiration_choice_witness:
  "set (offered xyz_dates False)
     = {\<lparr>year = 2024, month = 6, day = 21\<rparr>, \<lparr>year = 2024, month = 7, day = 19\<rparr>}
   \<and> {e \<in> set xyz_dates. weekday e = 4 \<and> 15 \<le> day e \<and> day e \<le> 21}
     = {\<lparr>year = 2024, month = 6, day = 21\<rparr>, \<lparr>year = 2024, month = 7, day = 19\<rparr>}
   \<and> choose_expiration xyz_dates False \<lparr>year = 2024, month = 7, day = 19\<rparr>
        [Unparsable, Parsed 7, Empty, Parsed 1]
       = Inr \<lparr>year = 2024, month = 7, day = 19\<rparr>
   \<and> choose_expiration xyz_dates False \<lparr>year = 2024, month = 7, day = 19\<rparr> [Parsed 1]
       = Inr \<lparr>year = 2024, month = 6, day = 21\<rparr>"
proof -
  note t = expiration_choice
  have nw: "\<not> False" by simp
  from t [THEN conjunct1, THEN mp, OF nw, of xyz_dates]
  have a: "{e \<in> set xyz_dates. weekday e = 4 \<and> 15 \<le> day e \<and> day e \<le> 21}
     = {\<lparr>year = 2024, month = 6, day = 21\<rparr>, \<lparr>year = 2024, month = 7, day = 19\<rparr>}"
    by (simp add: xyz_offered)
  have "\<forall>a\<in>set [Unparsable, Parsed 7]. a = Unparsable
          \<or> (\<exists>k. a = Parsed k \<and> \<not> (1 \<le> k \<and> k < int (length (offered xyz_dates False)) + 1))"
    by (simp add: xyz_offered)
  from t [THEN conjunct2, THEN conjunct2, THEN mp, OF this,
      of "\<lparr>year = 2024, month = 7, day = 19\<rparr>" "[Parsed 1]"]
  have b: "choose_expiration xyz_dates False \<lparr>year = 2024, month = 7, day = 19\<rparr>
        [Unparsable, Parsed 7, Empty, Parsed 1] = Inr \<lparr>year = 2024, month = 7, day = 19\<rparr>"
    by (simp add: xyz_offered)
  have c: "choose_expiration xyz_dates False \<lparr>year = 2024, month = 7, day = 19\<rparr> [Parsed 1]
       = Inr \<lparr>year = 2024, month = 6, day = 21\<rparr>"
    by (simp add: choose_expiration_def xyz_offered)
  from t [THEN conjunct2, THEN conjunct1, rule_format, OF c]
  have "\<lparr>year = 2024, month = 6, day = 21\<rparr> \<in> set (offered xyz_dates False)" .
  with a b c show ?thesis by (simp add: xyz_offered)
qed

lemma choose_expiration_not_offered:
  "choose_expiration xyz_dates False \<lparr>year = 2024, month = 6, day = 28\<rparr> replies = Inl ValueError"
  by (simp add: choose_expiration_def xyz_offered)


end
